theory Spec2Isabelle
  imports Main "HOL-Library.Word"
begin

unbundle bit_operations_syntax

section \<open>JavaScript strings\<close>

text \<open>
  Strings are byte lists holding the UTF-8 encoding of the JavaScript string.  The
  white space that \<^verbatim>\<open>String.prototype.trim\<close> removes (ECMAScript WhiteSpace and
  LineTerminator) is listed by its UTF-8 encoding.  A string is truthy iff it is not empty.
\<close>

definition jsWhiteSpace :: "string list" where
  "jsWhiteSpace =
    [[CHR 0x09], [CHR 0x0A], [CHR 0x0B], [CHR 0x0C], [CHR 0x0D], [CHR 0x20],
     [CHR 0xC2, CHR 0xA0], [CHR 0xE1, CHR 0x9A, CHR 0x80],
     [CHR 0xE2, CHR 0x80, CHR 0x80], [CHR 0xE2, CHR 0x80, CHR 0x81],
     [CHR 0xE2, CHR 0x80, CHR 0x82], [CHR 0xE2, CHR 0x80, CHR 0x83],
     [CHR 0xE2, CHR 0x80, CHR 0x84], [CHR 0xE2, CHR 0x80, CHR 0x85],
     [CHR 0xE2, CHR 0x80, CHR 0x86], [CHR 0xE2, CHR 0x80, CHR 0x87],
     [CHR 0xE2, CHR 0x80, CHR 0x88], [CHR 0xE2, CHR 0x80, CHR 0x89],
     [CHR 0xE2, CHR 0x80, CHR 0x8A], [CHR 0xE2, CHR 0x80, CHR 0xA8],
     [CHR 0xE2, CHR 0x80, CHR 0xA9], [CHR 0xE2, CHR 0x80, CHR 0xAF],
     [CHR 0xE2, CHR 0x81, CHR 0x9F], [CHR 0xE3, CHR 0x80, CHR 0x80],
     [CHR 0xEF, CHR 0xBB, CHR 0xBF]]"

fun startsWith :: "string \<Rightarrow> string \<Rightarrow> bool" where
  "startsWith s [] = True"
| "startsWith [] (p # ps) = False"
| "startsWith (c # cs) (p # ps) = (c = p \<and> startsWith cs ps)"

text \<open>Strip leading occurrences of the given (non-empty) code-point encodings.\<close>

function stripLeading :: "string list \<Rightarrow> string \<Rightarrow> string" where
  "stripLeading ws s =
     (case find (\<lambda>w. w \<noteq> [] \<and> startsWith s w) ws of
        None \<Rightarrow> s
      | Some w \<Rightarrow> stripLeading ws (drop (length w) s))"
  by pat_completeness auto
termination
proof (relation "measure (\<lambda>(ws, s). length s)")
  show "wf (measure (\<lambda>(ws, s). length s))" by simp
next
  fix ws :: "string list" and s w :: string
  assume "find (\<lambda>w. w \<noteq> [] \<and> startsWith s w) ws = Some w"
  then have "w \<noteq> []" and "startsWith s w"
    by (auto simp: find_Some_iff)
  moreover have "startsWith t p \<Longrightarrow> length p \<le> length t" for t p
    by (induction t p rule: startsWith.induct) auto
  ultimately have "0 < length w" and "length w \<le> length s"
    by auto
  then show "((ws, drop (length w) s), (ws, s)) \<in> measure (\<lambda>(ws, s). length s)"
    by (cases w) auto
qed

declare stripLeading.simps [simp del]

definition trim :: "string \<Rightarrow> string" where
  "trim s = rev (stripLeading (map rev jsWhiteSpace) (rev (stripLeading jsWhiteSpace s)))"

text \<open>
  \<^verbatim>\<open>toLowerCase\<close> on the ASCII letters; other bytes are kept.  The hint list below is
  ASCII, and no code point outside ASCII lower-cases to an ASCII string that completes
  one of its entries.
\<close>

definition lowerChar :: "char \<Rightarrow> char" where
  "lowerChar c =
     (case map_of (zip ''ABCDEFGHIJKLMNOPQRSTUVWXYZ'' ''abcdefghijklmnopqrstuvwxyz'') c of
        None \<Rightarrow> c
      | Some l \<Rightarrow> l)"

definition toLowerCase :: "string \<Rightarrow> string" where
  "toLowerCase s = map lowerChar s"

fun includesStr :: "string \<Rightarrow> string \<Rightarrow> bool" where
  "includesStr [] h = (h = [])"
| "includesStr (c # cs) h = (startsWith (c # cs) h \<or> includesStr cs h)"

section \<open>SHA-256 (\<^verbatim>\<open>createHash("sha256").update(s).digest("hex")\<close>)\<close>

type_synonym w32 = "32 word"

definition rotr :: "nat \<Rightarrow> w32 \<Rightarrow> w32" where
  "rotr n x = (drop_bit n x) OR (push_bit (32 - n) x)"

definition sha_K :: "w32 list" where
  "sha_K = [
   0x428A2F98, 0x71374491, 0xB5C0FBCF, 0xE9B5DBA5, 0x3956C25B, 0x59F111F1, 0x923F82A4, 0xAB1C5ED5,
   0xD807AA98, 0x12835B01, 0x243185BE, 0x550C7DC3, 0x72BE5D74, 0x80DEB1FE, 0x9BDC06A7, 0xC19BF174,
   0xE49B69C1, 0xEFBE4786, 0x0FC19DC6, 0x240CA1CC, 0x2DE92C6F, 0x4A7484AA, 0x5CB0A9DC, 0x76F988DA,
   0x983E5152, 0xA831C66D, 0xB00327C8, 0xBF597FC7, 0xC6E00BF3, 0xD5A79147, 0x06CA6351, 0x14292967,
   0x27B70A85, 0x2E1B2138, 0x4D2C6DFC, 0x53380D13, 0x650A7354, 0x766A0ABB, 0x81C2C92E, 0x92722C85,
   0xA2BFE8A1, 0xA81A664B, 0xC24B8B70, 0xC76C51A3, 0xD192E819, 0xD6990624, 0xF40E3585, 0x106AA070,
   0x19A4C116, 0x1E376C08, 0x2748774C, 0x34B0BCB5, 0x391C0CB3, 0x4ED8AA4A, 0x5B9CCA4F, 0x682E6FF3,
   0x748F82EE, 0x78A5636F, 0x84C87814, 0x8CC70208, 0x90BEFFFA, 0xA4506CEB, 0xBEF9A3F7, 0xC67178F2]"

definition sha_H0 :: "w32 list" where
  "sha_H0 = [0x6A09E667, 0xBB67AE85, 0x3C6EF372, 0xA54FF53A,
             0x510E527F, 0x9B05688C, 0x1F83D9AB, 0x5BE0CD19]"

text \<open>Padding: 0x80, zero bytes up to 56 mod 64, then the bit length as 64-bit big-endian.\<close>

definition be_bytes64 :: "64 word \<Rightarrow> 8 word list" where
  "be_bytes64 n = map (\<lambda>i. ucast (drop_bit (8 * (7 - i)) n)) [0..<8]"

definition sha_pad :: "8 word list \<Rightarrow> 8 word list" where
  "sha_pad bs = (let l = length bs;
                     z = (119 - l mod 64) mod 64
                 in bs @ [0x80] @ replicate z 0 @ be_bytes64 (8 * word_of_nat l))"

fun be_words :: "8 word list \<Rightarrow> w32 list" where
  "be_words (a # b # c # d # rest) =
     (push_bit 24 (ucast a) OR push_bit 16 (ucast b) OR push_bit 8 (ucast c) OR ucast d)
       # be_words rest"
| "be_words _ = []"

fun chunks16 :: "w32 list \<Rightarrow> w32 list list" where
  "chunks16 (w0 # w1 # w2 # w3 # w4 # w5 # w6 # w7 # w8 # w9 # w10 # w11 # w12 # w13 # w14 # w15 # rest) =
     [w0, w1, w2, w3, w4, w5, w6, w7, w8, w9, w10, w11, w12, w13, w14, w15] # chunks16 rest"
| "chunks16 _ = []"

definition ssig0 :: "w32 \<Rightarrow> w32" where
  "ssig0 x = rotr 7 x XOR rotr 18 x XOR drop_bit 3 x"
definition ssig1 :: "w32 \<Rightarrow> w32" where
  "ssig1 x = rotr 17 x XOR rotr 19 x XOR drop_bit 10 x"
definition bsig0 :: "w32 \<Rightarrow> w32" where
  "bsig0 x = rotr 2 x XOR rotr 13 x XOR rotr 22 x"
definition bsig1 :: "w32 \<Rightarrow> w32" where
  "bsig1 x = rotr 6 x XOR rotr 11 x XOR rotr 25 x"

text \<open>Message schedule, kept newest first: the head is W[t-1].\<close>
fun sha_schedule :: "nat \<Rightarrow> w32 list \<Rightarrow> w32 list" where
  "sha_schedule 0 rw = rw"
| "sha_schedule (Suc n) rw =
     sha_schedule n ((ssig1 (rw ! 1) + rw ! 6 + ssig0 (rw ! 14) + rw ! 15) # rw)"

fun sha_round :: "w32 list \<Rightarrow> (w32 \<times> w32) \<Rightarrow> w32 list" where
  "sha_round [a, b, c, d, e, f, g, h] (k, w) =
     (let t1 = h + bsig1 e + ((e AND f) XOR (NOT e AND g)) + k + w;
          t2 = bsig0 a + ((a AND b) XOR (a AND c) XOR (b AND c))
      in [t1 + t2, a, b, c, d + t1, e, f, g])"
| "sha_round v _ = v"

definition sha_compress :: "w32 list \<Rightarrow> w32 list \<Rightarrow> w32 list" where
  "sha_compress hs blk =
     (let ws = rev (sha_schedule 48 (rev blk))
      in map2 (+) hs (foldl sha_round hs (zip sha_K ws)))"

definition sha256_words :: "8 word list \<Rightarrow> w32 list" where
  "sha256_words bs = foldl sha_compress sha_H0 (chunks16 (be_words (sha_pad bs)))"

definition hex_digit :: "w32 \<Rightarrow> char" where
  "hex_digit n = (''0123456789abcdef'') ! unat (n AND 0xF)"

definition hex_word :: "w32 \<Rightarrow> string" where
  "hex_word w = map (\<lambda>i. hex_digit (drop_bit (4 * (7 - i)) w)) [0..<8]"

definition sha256hex :: "string \<Rightarrow> string" where
  "sha256hex s = concat (map hex_word (sha256_words (map of_char s)))"


section \<open>Error objects and their classification\<close>

text \<open>
  A JavaScript object as the router reads it: a stream chunk or a thrown error.  Only the
  fields that \<^verbatim>\<open>extractCodexError\<close> and the read loop look at are kept, each a string
  when present; \<open>obj_string\<close> is \<^verbatim>\<open>String(obj)\<close> and \<open>obj_rest\<close> stands for every other
  property.
\<close>

record jsObject =
  obj_type :: "string option"
  obj_data_message :: "string option"
  obj_errorText :: "string option"
  obj_message :: "string option"
  obj_error :: "string option"
  obj_data_code :: "string option"
  obj_code :: "string option"
  obj_string :: string
  obj_rest :: string

definition truthy :: "string option \<Rightarrow> bool" where
  "truthy v = (case v of None \<Rightarrow> False | Some s \<Rightarrow> s \<noteq> [])"

text \<open>\<^verbatim>\<open>a || b\<close> on optional strings.\<close>
definition orElse :: "string option \<Rightarrow> string option \<Rightarrow> string option" where
  "orElse a b = (if truthy a then a else b)"

record normalizedError =
  message :: string
  code :: "string option"

definition extractCodexError :: "jsObject \<Rightarrow> normalizedError" where
  "extractCodexError anyError =
     (let m = orElse (obj_data_message anyError)
                (orElse (obj_errorText anyError)
                  (orElse (obj_message anyError) (obj_error anyError)));
          c = orElse (obj_data_code anyError) (obj_code anyError)
      in \<lparr> message = (if truthy m then the m else obj_string anyError),
           code = c \<rparr>)"

definition AUTH_HINTS :: "string list" where
  "AUTH_HINTS =
    [''not logged in'', ''authentication required'', ''auth required'', ''login required'',
     ''missing credentials'', ''no credentials'', ''unauthorized'', ''forbidden'',
     ''codex login'', ''401'', ''403'']"

definition searchableText :: "normalizedError \<Rightarrow> string" where
  "searchableText params =
     toLowerCase ((if truthy (code params) then the (code params) else [])
                  @ '' '' @ message params)"

definition isCodexAuthError :: "normalizedError \<Rightarrow> bool" where
  "isCodexAuthError params = list_ex (\<lambda>hint. includesStr (searchableText params) hint) AUTH_HINTS"

section \<open>Provider session pool\<close>

datatype CodexMcpServerForSession =
    Stdio (srv_name: string) (srv_command: string) (srv_args: "string list")
          (srv_env: "(string \<times> string) list")
  | Http (srv_name: string) (srv_url: string) (srv_headers: "(string \<times> string) list")

record authConfig =
  apiKey :: string

definition getAuthFingerprint :: "authConfig option \<Rightarrow> string option" where
  "getAuthFingerprint cfg =
     (case cfg of
        None \<Rightarrow> None
      | Some a \<Rightarrow> (let k = trim (apiKey a) in if k = [] then None else Some (sha256hex k)))"

text \<open>The part of the host the pool reads: the two environments and the outcome of
  \<^verbatim>\<open>resolveCodexAcpBinaryPath()\<close>, which throws on an unsupported platform or a missing
  package.\<close>

record host =
  processEnv :: "(string \<times> string) list"
  shellEnv :: "(string \<times> string) list"
  acpBinaryPath :: "jsObject + string"

fun setProp :: "string \<Rightarrow> string \<Rightarrow> (string \<times> string) list \<Rightarrow> (string \<times> string) list" where
  "setProp k v [] = [(k, v)]"
| "setProp k v ((k', v') # rest) =
     (if k = k' then (k, v) # rest else (k', v') # setProp k v rest)"

definition buildCodexProviderEnv :: "host \<Rightarrow> authConfig option \<Rightarrow> (string \<times> string) list" where
  "buildCodexProviderEnv h cfg =
     (let env = fold (\<lambda>(k, v). setProp k v) (shellEnv h)
                  (fold (\<lambda>(k, v). setProp k v) (processEnv h) []);
          k = (case cfg of None \<Rightarrow> [] | Some a \<Rightarrow> trim (apiKey a))
      in if k = [] then env else setProp ''CODEX_API_KEY'' k env)"

definition getCodexAuthMethodId :: "authConfig option \<Rightarrow> string option" where
  "getCodexAuthMethodId cfg =
     (let k = (case cfg of None \<Rightarrow> [] | Some a \<Rightarrow> trim (apiKey a))
      in if k = [] then None else Some ''codex-api-key'')"

text \<open>The argument of \<^verbatim>\<open>createACPProvider\<close>; the provider object is its identity
  (\<open>handle\<close>) together with the options it was built from.\<close>

record providerOptions =
  opt_command :: string
  opt_env :: "(string \<times> string) list"
  opt_authMethodId :: "string option"
  opt_session_cwd :: string
  opt_session_mcpServers :: "CodexMcpServerForSession list"
  opt_existingSessionId :: "string option"
  opt_persistSession :: bool

record ACPProvider =
  handle :: nat
  options :: providerOptions

record CodexProviderSession =
  provider :: ACPProvider
  cwd :: string
  authFingerprint :: "string option"
  mcpFingerprint :: string

record ActiveCodexStream =
  runId :: string
  controller :: nat

text \<open>What the router does to the outside, in order: \<^verbatim>\<open>provider.cleanup()\<close>,
  \<^verbatim>\<open>controller.abort()\<close> and the construction of a provider.\<close>

datatype effect =
    ProviderCleanup nat
  | ControllerAbort nat
  | ProviderCreated nat

record router =
  providerSessions :: "string \<rightharpoonup> CodexProviderSession"
  activeStreams :: "string \<rightharpoonup> ActiveCodexStream"
  nextRef :: nat
  effects :: "effect list"

record providerParams =
  p_subChatId :: string
  p_cwd :: string
  p_mcpServers :: "CodexMcpServerForSession list"
  p_mcpFingerprint :: string
  p_existingSessionId :: "string option"
  p_authConfig :: "authConfig option"

definition sessionMatches :: "providerParams \<Rightarrow> CodexProviderSession \<Rightarrow> bool" where
  "sessionMatches params existing =
     (cwd existing = p_cwd params \<and>
      authFingerprint existing = getAuthFingerprint (p_authConfig params) \<and>
      mcpFingerprint existing = p_mcpFingerprint params)"

definition cleanupProvider :: "string \<Rightarrow> router \<Rightarrow> router" where
  "cleanupProvider subChatId s =
     (case providerSessions s subChatId of
        None \<Rightarrow> s
      | Some existing \<Rightarrow>
          s\<lparr> effects := effects s @ [ProviderCleanup (handle (provider existing))],
             providerSessions := (providerSessions s)(subChatId := None) \<rparr>)"

definition hasAppManagedApiKey :: "authConfig option \<Rightarrow> bool" where
  "hasAppManagedApiKey cfg = (case cfg of None \<Rightarrow> False | Some a \<Rightarrow> trim (apiKey a) \<noteq> [])"

definition existingSessionIdForProvider :: "providerParams \<Rightarrow> string option" where
  "existingSessionIdForProvider params =
     (if hasAppManagedApiKey (p_authConfig params) then None else p_existingSessionId params)"

text \<open>The options object handed to \<^verbatim>\<open>createACPProvider\<close>: the key
  \<^verbatim>\<open>existingSessionId\<close> is spread in only when the identifier is truthy.\<close>

definition providerOptionsFor :: "host \<Rightarrow> string \<Rightarrow> providerParams \<Rightarrow> providerOptions" where
  "providerOptionsFor h cmd params =
     \<lparr> opt_command = cmd,
       opt_env = buildCodexProviderEnv h (p_authConfig params),
       opt_authMethodId = getCodexAuthMethodId (p_authConfig params),
       opt_session_cwd = p_cwd params,
       opt_session_mcpServers = p_mcpServers params,
       opt_existingSessionId =
         (if truthy (existingSessionIdForProvider params)
          then existingSessionIdForProvider params else None),
       opt_persistSession = True \<rparr>"

text \<open>The tail of \<^verbatim>\<open>getOrCreateProvider\<close>: construct, store, return.  Resolving the
  binary path is the first thing evaluated and may throw; nothing is stored then.\<close>

definition constructProvider ::
  "host \<Rightarrow> providerParams \<Rightarrow> router \<Rightarrow> (jsObject + ACPProvider) \<times> router" where
  "constructProvider h params s =
     (case acpBinaryPath h of
        Inl err \<Rightarrow> (Inl err, s)
      | Inr cmd \<Rightarrow>
          (let prov = \<lparr> handle = nextRef s, options = providerOptionsFor h cmd params \<rparr>
           in (Inr prov,
               s\<lparr> nextRef := Suc (nextRef s),
                   effects := effects s @ [ProviderCreated (handle prov)],
                   providerSessions := (providerSessions s)(p_subChatId params \<mapsto>
                     \<lparr> provider = prov, cwd = p_cwd params,
                       authFingerprint = getAuthFingerprint (p_authConfig params),
                       mcpFingerprint = p_mcpFingerprint params \<rparr>) \<rparr>)))"

definition getOrCreateProvider ::
  "host \<Rightarrow> providerParams \<Rightarrow> router \<Rightarrow> (jsObject + ACPProvider) \<times> router" where
  "getOrCreateProvider h params s =
     (case providerSessions s (p_subChatId params) of
        Some existing \<Rightarrow>
          if sessionMatches params existing then (Inr (provider existing), s)
          else constructProvider h params (cleanupProvider (p_subChatId params) s)
      | None \<Rightarrow> constructProvider h params s)"

section \<open>Run registry\<close>

definition abortController :: "nat \<Rightarrow> router \<Rightarrow> router" where
  "abortController c s = s\<lparr> effects := effects s @ [ControllerAbort c] \<rparr>"

text \<open>The synchronous head of the \<^verbatim>\<open>chat\<close> subscription, in its two steps: the run found
  in \<open>activeStreams\<close> is aborted and its provider session cleaned up, then the entry is
  overwritten with the new run and a fresh controller.\<close>

definition supersedeExisting :: "string \<Rightarrow> router \<Rightarrow> router" where
  "supersedeExisting subChatId s =
     (case activeStreams s subChatId of
        None \<Rightarrow> s
      | Some existingStream \<Rightarrow>
          cleanupProvider subChatId (abortController (controller existingStream) s))"

definition registerRun :: "string \<Rightarrow> string \<Rightarrow> router \<Rightarrow> router" where
  "registerRun subChatId rid s =
     s\<lparr> nextRef := Suc (nextRef s),
        activeStreams := (activeStreams s)(subChatId \<mapsto>
          \<lparr> runId = rid, controller = nextRef s \<rparr>) \<rparr>"

definition chatStart :: "string \<Rightarrow> string \<Rightarrow> router \<Rightarrow> router" where
  "chatStart subChatId rid s = registerRun subChatId rid (supersedeExisting subChatId s)"

text \<open>The guarded removal shared by the \<^verbatim>\<open>finally\<close> block of the run and by the
  teardown function returned to the subscription.\<close>

definition releaseRun :: "string \<Rightarrow> string \<Rightarrow> router \<Rightarrow> router" where
  "releaseRun subChatId rid s =
     (case activeStreams s subChatId of
        None \<Rightarrow> s
      | Some a \<Rightarrow>
          if runId a = rid
          then s\<lparr> activeStreams := (activeStreams s)(subChatId := None) \<rparr>
          else s)"

definition chatTeardown :: "string \<Rightarrow> string \<Rightarrow> nat \<Rightarrow> router \<Rightarrow> router" where
  "chatTeardown subChatId rid c s = releaseRun subChatId rid (abortController c s)"

record cancelResult =
  cancelled :: bool
  ignoredStale :: bool

definition cancel :: "string \<Rightarrow> string \<Rightarrow> router \<Rightarrow> cancelResult \<times> router" where
  "cancel subChatId rid s =
     (case activeStreams s subChatId of
        None \<Rightarrow> (\<lparr> cancelled = False, ignoredStale = False \<rparr>, s)
      | Some activeStream \<Rightarrow>
          if runId activeStream \<noteq> rid
          then (\<lparr> cancelled = False, ignoredStale = True \<rparr>, s)
          else
            (let s1 = cleanupProvider subChatId (abortController (controller activeStream) s)
             in (\<lparr> cancelled = True, ignoredStale = False \<rparr>,
                 s1\<lparr> activeStreams := (activeStreams s1)(subChatId := None) \<rparr>)))"

definition cleanup :: "string \<Rightarrow> router \<Rightarrow> bool \<times> router" where
  "cleanup subChatId s =
     (let s1 = cleanupProvider subChatId s
      in case activeStreams s1 subChatId of
           None \<Rightarrow> (True, s1)
         | Some activeStream \<Rightarrow>
             (let s2 = abortController (controller activeStream) s1
              in (True, s2\<lparr> activeStreams := (activeStreams s2)(subChatId := None) \<rparr>)))"

text \<open>Readings of the effect trace.\<close>

definition aborted :: "router \<Rightarrow> nat \<Rightarrow> bool" where
  "aborted s c = (ControllerAbort c \<in> set (effects s))"

definition liveProvider :: "router \<Rightarrow> nat \<Rightarrow> bool" where
  "liveProvider s h =
     (ProviderCreated h \<in> set (effects s) \<and> ProviderCleanup h \<notin> set (effects s))"

section \<open>Transcript\<close>

text \<open>
  The \<^verbatim>\<open>messages\<close> column of a sub-chat row, as \<^verbatim>\<open>parseStoredMessages\<close> returns it:
  a list of message objects (the empty list for a null or unreadable column).  A part
  carries the fields the router reads; a field that is not a string is \<open>None\<close>.
\<close>

datatype messagePart =
    TextPart "string option"
  | FileContentPart "string option" "string option"
  | DataImagePart string string "string option"
  | OtherPart string

record messageMetadata =
  meta_model :: "string option"
  meta_sessionId :: "string option"

record storedMessage =
  msg_id :: string
  msg_role :: string
  msg_parts :: "messagePart list option"
  msg_metadata :: messageMetadata

record imageAttachment =
  base64Data :: string
  mediaType :: string
  filename :: "string option"

text \<open>\<^verbatim>\<open>filePath.split("/").pop()\<close>\<close>
definition lastPathSegment :: "string \<Rightarrow> string" where
  "lastPathSegment p = rev (takeWhile (\<lambda>c. c \<noteq> CHR ''/'') (rev p))"

definition fileNameOf :: "string option \<Rightarrow> string" where
  "fileNameOf filePath =
     (case filePath of
        None \<Rightarrow> ''file''
      | Some p \<Rightarrow> if lastPathSegment p \<noteq> [] then lastPathSegment p
                  else if p \<noteq> [] then p else ''file'')"

fun textPartsOf :: "messagePart list \<Rightarrow> string list" where
  "textPartsOf [] = []"
| "textPartsOf (TextPart (Some t) # ps) = t # textPartsOf ps"
| "textPartsOf (p # ps) = textPartsOf ps"

fun fileContentsOf :: "messagePart list \<Rightarrow> string list" where
  "fileContentsOf [] = []"
| "fileContentsOf (FileContentPart filePath content # ps) =
     ([CHR 0x0A] @ ''--- '' @ fileNameOf filePath @ '' ---'' @ [CHR 0x0A]
        @ (case content of None \<Rightarrow> [] | Some c \<Rightarrow> c)) # fileContentsOf ps"
| "fileContentsOf (p # ps) = fileContentsOf ps"

fun joinWith :: "string \<Rightarrow> string list \<Rightarrow> string" where
  "joinWith sep [] = []"
| "joinWith sep [x] = x"
| "joinWith sep (x # y # rest) = x @ sep @ joinWith sep (y # rest)"

definition extractPromptFromStoredMessage :: "storedMessage \<Rightarrow> string" where
  "extractPromptFromStoredMessage m =
     (case msg_parts m of
        None \<Rightarrow> []
      | Some ps \<Rightarrow> joinWith [CHR 0x0A] (textPartsOf ps) @ concat (fileContentsOf ps))"

definition getLastSessionId :: "storedMessage list \<Rightarrow> string option" where
  "getLastSessionId messages =
     (case find (\<lambda>m. msg_role m = ''assistant'') (rev messages) of
        None \<Rightarrow> None
      | Some lastAssistant \<Rightarrow> meta_sessionId (msg_metadata lastAssistant))"

definition DEFAULT_CODEX_MODEL :: string where
  "DEFAULT_CODEX_MODEL = ''gpt-5.3-codex/high''"

definition extractCodexModelId :: "string option \<Rightarrow> string option" where
  "extractCodexModelId rawModel =
     (case rawModel of
        None \<Rightarrow> None
      | Some m \<Rightarrow>
          if m = [] then None
          else if trim m = [] \<or> trim m = ''codex'' then None
          else Some (trim m))"

definition buildUserParts :: "string \<Rightarrow> imageAttachment list option \<Rightarrow> messagePart list" where
  "buildUserParts prompt images =
     TextPart (Some prompt) #
     (case images of
        None \<Rightarrow> []
      | Some imgs \<Rightarrow>
          map (\<lambda>i. DataImagePart (base64Data i) (mediaType i) (filename i))
              (filter (\<lambda>i. base64Data i \<noteq> [] \<and> mediaType i \<noteq> []) imgs))"

record database =
  subChats :: "string \<rightharpoonup> storedMessage list"
  db_writes :: "(string \<times> storedMessage list) list"

record chatInput =
  in_subChatId :: string
  in_chatId :: string
  in_runId :: string
  in_prompt :: string
  in_model :: "string option"
  in_cwd :: string
  in_projectPath :: "string option"
  in_mode :: string
  in_sessionId :: "string option"
  in_forceNewSession :: bool
  in_images :: "imageAttachment list option"
  in_authConfig :: "authConfig option"

definition isDuplicatePrompt :: "storedMessage list \<Rightarrow> string \<Rightarrow> bool" where
  "isDuplicatePrompt existingMessages prompt =
     (case existingMessages of
        [] \<Rightarrow> False
      | _ \<Rightarrow> msg_role (last existingMessages) = ''user'' \<and>
             extractPromptFromStoredMessage (last existingMessages) = prompt)"

text \<open>The transcript step of Building: \<open>uuid\<close> is the value of
  \<^verbatim>\<open>crypto.randomUUID()\<close> for the new message.  The result is \<^verbatim>\<open>messagesForStream\<close>
  and the database after the step.\<close>

definition userMessageFor :: "string \<Rightarrow> chatInput \<Rightarrow> storedMessage" where
  "userMessageFor uuid input =
     \<lparr> msg_id = uuid, msg_role = ''user'',
       msg_parts = Some (buildUserParts (in_prompt input) (in_images input)),
       msg_metadata =
         \<lparr> meta_model =
             Some (case extractCodexModelId (in_model input) of
                     None \<Rightarrow> DEFAULT_CODEX_MODEL | Some m \<Rightarrow> m),
           meta_sessionId = None \<rparr> \<rparr>"

definition appendUserTurn ::
  "string \<Rightarrow> chatInput \<Rightarrow> storedMessage list \<Rightarrow> database \<Rightarrow> storedMessage list \<times> database" where
  "appendUserTurn uuid input existingMessages d =
     (if isDuplicatePrompt existingMessages (in_prompt input) then (existingMessages, d)
      else
        (let messagesForStream = existingMessages @ [userMessageFor uuid input]
         in (messagesForStream,
             d\<lparr> subChats := (subChats d)(in_subChatId input \<mapsto> messagesForStream),
                db_writes := db_writes d @ [(in_subChatId input, messagesForStream)] \<rparr>)))"

section \<open>Turn executor\<close>

record CodexMcpSnapshot =
  mcpServersForSession :: "CodexMcpServerForSession list"
  fingerprint :: string

text \<open>The snapshot the run starts from: no servers, fingerprint of \<^verbatim>\<open>JSON.stringify([])\<close>.\<close>
definition emptyMcpSnapshot :: CodexMcpSnapshot where
  "emptyMcpSnapshot = \<lparr> mcpServersForSession = [], fingerprint = sha256hex ''[]'' \<rparr>"

text \<open>
  What one run meets outside the router: the host, the fresh message id, the outcome of
  resolving the MCP snapshot (\<open>Inl\<close>: it threw), the chunks the UI message stream yields,
  how reading ends (\<open>None\<close>: done; \<open>Some e\<close>: starting or reading the stream
  throws \<open>e\<close> after those chunks), and the response message the stream assembles when it
  calls \<^verbatim>\<open>onFinish\<close> (\<open>None\<close>: \<^verbatim>\<open>onFinish\<close> is not called).  The stream was given
  \<^verbatim>\<open>originalMessages: messagesForStream\<close>, whose last message is a user message, so
  \<^verbatim>\<open>onFinish\<close> receives \<^verbatim>\<open>messagesForStream\<close> followed by the response message.
\<close>

record runWorld =
  w_host :: host
  w_uuid :: string
  w_mcp :: "jsObject + CodexMcpSnapshot"
  w_stream :: "jsObject list"
  w_streamEnd :: "jsObject option"
  w_response :: "storedMessage option"

record emitter =
  isActive :: bool
  emitted :: "jsObject list"
  completed :: bool

definition safeEmit :: "jsObject \<Rightarrow> emitter \<Rightarrow> emitter" where
  "safeEmit chunk em = (if isActive em then em\<lparr> emitted := emitted em @ [chunk] \<rparr> else em)"

definition safeComplete :: "emitter \<Rightarrow> emitter" where
  "safeComplete em = (if isActive em then em\<lparr> isActive := False, completed := True \<rparr> else em)"

definition newError :: "string \<Rightarrow> jsObject" where
  "newError msg =
     \<lparr> obj_type = None, obj_data_message = None, obj_errorText = None, obj_message = Some msg,
       obj_error = None, obj_data_code = None, obj_code = None,
       obj_string = (if msg = [] then ''Error'' else ''Error: '' @ msg), obj_rest = [] \<rparr>"

definition newChunk :: "string \<Rightarrow> string option \<Rightarrow> jsObject" where
  "newChunk t txt =
     \<lparr> obj_type = Some t, obj_data_message = None, obj_errorText = txt, obj_message = None,
       obj_error = None, obj_data_code = None, obj_code = None,
       obj_string = ''[object Object]'', obj_rest = [] \<rparr>"

text \<open>One turn of the read loop: what is emitted for the chunk \<open>v\<close>.\<close>
definition forwardChunk :: "jsObject \<Rightarrow> jsObject" where
  "forwardChunk v =
     (if obj_type v = Some ''error''
      then (let normalized = extractCodexError v
            in if isCodexAuthError normalized
               then v\<lparr> obj_type := Some ''auth-error'', obj_errorText := Some (message normalized) \<rparr>
               else v\<lparr> obj_errorText := Some (message normalized) \<rparr>)
      else v)"

fun readLoop :: "jsObject list \<Rightarrow> emitter \<Rightarrow> emitter" where
  "readLoop [] em = em"
| "readLoop (v # vs) em = readLoop vs (safeEmit (forwardChunk v) em)"

text \<open>The \<^verbatim>\<open>catch\<close> block: the chunk for the caught error, then \<^verbatim>\<open>finish\<close>, then
  completion.\<close>

definition caughtChunk :: "jsObject \<Rightarrow> jsObject" where
  "caughtChunk err =
     (let normalized = extractCodexError err
      in if isCodexAuthError normalized
         then newChunk ''auth-error'' (Some (message normalized))
         else newChunk ''error'' (Some (message normalized)))"

definition catchHandler :: "jsObject \<Rightarrow> emitter \<Rightarrow> emitter" where
  "catchHandler err em =
     safeComplete (safeEmit (newChunk ''finish'' None) (safeEmit (caughtChunk err) em))"

text \<open>The snapshot the run uses: the resolved one, or the initial empty one when
  resolving threw (the \<^verbatim>\<open>catch\<close> around it only logs).\<close>
definition mcpSnapshotFor :: "runWorld \<Rightarrow> CodexMcpSnapshot" where
  "mcpSnapshotFor w = (case w_mcp w of Inl mcpError \<Rightarrow> emptyMcpSnapshot | Inr snap \<Rightarrow> snap)"

definition requestedSessionId :: "chatInput \<Rightarrow> storedMessage list \<Rightarrow> string option" where
  "requestedSessionId input existingMessages =
     (case in_sessionId input of
        Some sid \<Rightarrow> Some sid
      | None \<Rightarrow> getLastSessionId existingMessages)"

definition providerParamsFor ::
  "chatInput \<Rightarrow> CodexMcpSnapshot \<Rightarrow> storedMessage list \<Rightarrow> providerParams" where
  "providerParamsFor input mcpSnapshot existingMessages =
     \<lparr> p_subChatId = in_subChatId input,
       p_cwd = in_cwd input,
       p_mcpServers = mcpServersForSession mcpSnapshot,
       p_mcpFingerprint = fingerprint mcpSnapshot,
       p_existingSessionId =
         (if in_forceNewSession input then None
          else requestedSessionId input existingMessages),
       p_authConfig = in_authConfig input \<rparr>"

text \<open>Building: the row is looked up, the user turn appended unless it repeats the last
  one, a forced fresh session drops the stored provider, the MCP snapshot is resolved
  (a failure there is caught and logged) and the provider acquired.\<close>

definition building ::
  "runWorld \<Rightarrow> chatInput \<Rightarrow> router \<Rightarrow> database \<Rightarrow>
     (jsObject + (ACPProvider \<times> storedMessage list)) \<times> router \<times> database" where
  "building w input s d =
     (case subChats d (in_subChatId input) of
        None \<Rightarrow> (Inl (newError ''Sub-chat not found''), s, d)
      | Some existingMessages \<Rightarrow>
          (let (messagesForStream, d1) = appendUserTurn (w_uuid w) input existingMessages d;
               s1 = (if in_forceNewSession input then cleanupProvider (in_subChatId input) s else s);
               (r, s2) = getOrCreateProvider (w_host w)
                           (providerParamsFor input (mcpSnapshotFor w) existingMessages) s1
           in case r of
                Inl err \<Rightarrow> (Inl err, s2, d1)
              | Inr prov \<Rightarrow> (Inr (prov, messagesForStream), s2, d1)))"

text \<open>\<^verbatim>\<open>onFinish\<close>: the row is overwritten with the messages of the finished stream.\<close>

definition persistOnFinish ::
  "runWorld \<Rightarrow> chatInput \<Rightarrow> storedMessage list \<Rightarrow> database \<Rightarrow> database" where
  "persistOnFinish w input messagesForStream d =
     (case w_response w of
        None \<Rightarrow> d
      | Some response \<Rightarrow>
          d\<lparr> subChats := (subChats d)(in_subChatId input \<mapsto> messagesForStream @ [response]),
             db_writes := db_writes d @ [(in_subChatId input, messagesForStream @ [response])] \<rparr>)"

text \<open>Completing the subscription makes the observable unsubscribe, which runs the
  teardown function of the run: its controller \<open>c\<close> is aborted and its entry removed.
  \<^verbatim>\<open>safeComplete\<close> completes only while the subscriber is active.\<close>

definition afterComplete :: "chatInput \<Rightarrow> nat \<Rightarrow> emitter \<Rightarrow> router \<Rightarrow> router" where
  "afterComplete input c em s =
     (if isActive em then chatTeardown (in_subChatId input) (in_runId input) c s else s)"

text \<open>The asynchronous body of a run that no other call interrupts, with its
  \<^verbatim>\<open>catch\<close> and \<^verbatim>\<open>finally\<close>; \<open>c\<close> is the controller of the run.\<close>

definition chatBody ::
  "runWorld \<Rightarrow> chatInput \<Rightarrow> nat \<Rightarrow> router \<Rightarrow> database \<Rightarrow> emitter \<Rightarrow>
     emitter \<times> router \<times> database" where
  "chatBody w input c s d em =
     (case building w input s d of
        (Inl err, s1, d1) \<Rightarrow>
          (catchHandler err em,
           releaseRun (in_subChatId input) (in_runId input) (afterComplete input c em s1),
           d1)
      | (Inr (prov, messagesForStream), s1, d1) \<Rightarrow>
          (let em1 = readLoop (w_stream w) em;
               d2 = persistOnFinish w input messagesForStream d1;
               em2 = (case w_streamEnd w of
                        None \<Rightarrow> safeComplete em1
                      | Some err \<Rightarrow> catchHandler err em1)
           in (em2,
               releaseRun (in_subChatId input) (in_runId input) (afterComplete input c em1 s1),
               d2)))"

text \<open>The subscriber of a new subscription: \<^verbatim>\<open>isActive\<close> starts true.\<close>
definition freshEmitter :: emitter where
  "freshEmitter = \<lparr> isActive = True, emitted = [], completed = False \<rparr>"

text \<open>A whole turn: the synchronous head registers the run with the controller it
  creates, then the body runs.\<close>

definition chat ::
  "runWorld \<Rightarrow> chatInput \<Rightarrow> router \<Rightarrow> database \<Rightarrow> emitter \<times> router \<times> database" where
  "chat w input s d =
     chatBody w input (nextRef (supersedeExisting (in_subChatId input) s))
       (chatStart (in_subChatId input) (in_runId input) s) d freshEmitter"

section \<open>Client transport: recovery from an auth error\<close>

text \<open>
  The renderer state that \<^verbatim>\<open>ACPChatTransport\<close> reads and writes: the module-level set
  \<open>forceFreshSessionSubChats\<close>, the atoms of the store, the toasts shown and the
  \<^verbatim>\<open>codex.cleanup\<close> mutations sent.  \<open>codexApiKey\<close> is the value of
  \<^verbatim>\<open>normalizeCodexApiKey(appStore.get(codexApiKeyAtom))\<close>.
\<close>

record pendingAuthRetryMessage =
  retry_subChatId :: string
  retry_provider :: string
  retry_prompt :: string
  retry_images :: "imageAttachment list option"
  readyToRetry :: bool

datatype streamStatus = StreamOpen | StreamClosed | StreamErrored string

record client =
  forceFreshSessionSubChats :: "string set"
  pendingAuthRetryMessageAtom :: "pendingAuthRetryMessage option"
  codexLoginModalOpenAtom :: bool
  codexApiKey :: string
  codexOnboardingCompletedAtom :: bool
  codexOnboardingAuthMethodAtom :: string
  toasts :: "(string \<times> string) list"
  cleanupCalls :: "string list"

record credentials =
  hasApiKey :: bool
  hasSubscription :: bool
  hasAny :: bool

definition getStoredCodexCredentials :: "client \<Rightarrow> credentials" where
  "getStoredCodexCredentials c =
     (let k = (codexApiKey c \<noteq> []);
          sub = (codexOnboardingCompletedAtom c \<and> codexOnboardingAuthMethodAtom c = ''chatgpt'')
      in \<lparr> hasApiKey = k, hasSubscription = sub, hasAny = (k \<or> sub) \<rparr>)"

text \<open>\<open>integration\<close> is the state returned by \<^verbatim>\<open>codex.getIntegration\<close>, \<open>None\<close> when
  the query throws.\<close>

definition resolveCodexCredentialsForAuthError :: "string option \<Rightarrow> client \<Rightarrow> credentials" where
  "resolveCodexCredentialsForAuthError integration c =
     (let snapshot = getStoredCodexCredentials c;
          sub = (case integration of None \<Rightarrow> False | Some st \<Rightarrow> st = ''connected_chatgpt'')
      in \<lparr> hasApiKey = hasApiKey snapshot, hasSubscription = sub,
           hasAny = (hasApiKey snapshot \<or> sub) \<rparr>)"

text \<open>What \<^verbatim>\<open>sendMessages\<close> fixes before it subscribes: prompt and images of the last
  user message, and the one-shot flag, which is read and cleared.\<close>

record sendContext =
  send_subChatId :: string
  send_prompt :: string
  send_images :: "imageAttachment list"
  forceNewSession :: bool
  status :: streamStatus

definition sendMessages ::
  "string \<Rightarrow> string \<Rightarrow> imageAttachment list \<Rightarrow> client \<Rightarrow> sendContext \<times> client" where
  "sendMessages subChatId prompt images c =
     (let force = (subChatId \<in> forceFreshSessionSubChats c)
      in (\<lparr> send_subChatId = subChatId, send_prompt = prompt, send_images = images,
             forceNewSession = force, status = StreamOpen \<rparr>,
          (if force
           then c\<lparr> forceFreshSessionSubChats := forceFreshSessionSubChats c - {subChatId} \<rparr>
           else c)))"

definition shouldAutoRetryOnce :: "credentials \<Rightarrow> sendContext \<Rightarrow> bool" where
  "shouldAutoRetryOnce creds ctx = (hasAny creds \<and> \<not> forceNewSession ctx)"

text \<open>\<^verbatim>\<open>onData\<close> for a chunk of type \<^verbatim>\<open>auth-error\<close>.\<close>

definition onAuthError :: "string option \<Rightarrow> sendContext \<Rightarrow> client \<Rightarrow> sendContext \<times> client" where
  "onAuthError integration ctx c =
     (let c1 = c\<lparr> forceFreshSessionSubChats :=
                    insert (send_subChatId ctx) (forceFreshSessionSubChats c) \<rparr>;
          creds = resolveCodexCredentialsForAuthError integration c1;
          c2 = c1\<lparr> pendingAuthRetryMessageAtom := Some
                 \<lparr> retry_subChatId = send_subChatId ctx, retry_provider = ''codex'',
                   retry_prompt = send_prompt ctx,
                   retry_images = (if send_images ctx \<noteq> [] then Some (send_images ctx) else None),
                   readyToRetry = shouldAutoRetryOnce creds ctx \<rparr> \<rparr>;
          c3 = (if \<not> hasAny creds then c2\<lparr> codexLoginModalOpenAtom := True \<rparr>
                else if \<not> shouldAutoRetryOnce creds ctx
                then c2\<lparr> toasts := toasts c2 @
                       [(''Codex authentication failed'',
                         if hasApiKey creds
                         then ''Saved Codex API key was rejected. Update it in Settings.''
                         else ''Saved Codex subscription auth failed. Reconnect subscription in Settings.'')] \<rparr>
                else c2)
      in (ctx\<lparr> status := (case status ctx of
                             StreamOpen \<Rightarrow> StreamErrored ''Codex authentication required''
                           | st \<Rightarrow> st) \<rparr>,
          c3\<lparr> cleanupCalls := cleanupCalls c3 @ [send_subChatId ctx] \<rparr>))"

section \<open>Login sessions\<close>

datatype CodexLoginSessionState = StateRunning | StateSuccess | StateError | StateCancelled

record childProcess =
  killed :: bool

record CodexLoginSession =
  login_id :: string
  login_process :: "childProcess option"
  login_state :: CodexLoginSessionState
  login_output :: string
  login_url :: "string option"
  login_error :: "string option"
  login_exitCode :: "int option"

fun showNat :: "nat \<Rightarrow> string" where
  "showNat n = (if n < 10 then [''0123456789'' ! n]
                else showNat (n div 10) @ [''0123456789'' ! (n mod 10)])"

declare showNat.simps [simp del]

text \<open>An integer in a template string.\<close>
definition showInt :: "int \<Rightarrow> string" where
  "showInt i = (if i < 0 then ''-'' @ showNat (nat (- i)) else showNat (nat i))"

text \<open>The handlers that \<^verbatim>\<open>startLogin\<close> installs on the child process, as functions of the
  session they close over.  The exit code is an integer, negative ones included, and
  \<open>None\<close> (\<^verbatim>\<open>null\<close>) when the child was ended by a signal.\<close>

definition onProcessError :: "string \<Rightarrow> CodexLoginSession \<Rightarrow> CodexLoginSession" where
  "onProcessError msg session =
     session\<lparr> login_state := StateError,
              login_error := Some (''[codex] Failed to start login flow: '' @ msg),
              login_process := None \<rparr>"

definition onProcessClose :: "int option \<Rightarrow> CodexLoginSession \<Rightarrow> CodexLoginSession" where
  "onProcessClose exitCode session =
     (let s1 = session\<lparr> login_exitCode := exitCode, login_process := None \<rparr>
      in if login_state s1 = StateCancelled then s1
         else if exitCode = Some 0
         then s1\<lparr> login_state := StateSuccess, login_error := None \<rparr>
         else s1\<lparr> login_state := StateError,
                  login_error :=
                    (if truthy (login_error s1) then login_error s1
                     else Some (''Codex login exited with code '' @
                                (case exitCode of None \<Rightarrow> ''unknown'' | Some n \<Rightarrow> showInt n))) \<rparr>)"

text \<open>\<^verbatim>\<open>cancelLogin\<close> on the session map: the result is \<open>found\<close> and the map after the call.\<close>

definition cancelSession :: "CodexLoginSession \<Rightarrow> CodexLoginSession" where
  "cancelSession session =
     (let s1 = session\<lparr> login_state := StateCancelled, login_error := None \<rparr>
      in case login_process s1 of
           None \<Rightarrow> s1
         | Some p \<Rightarrow> if killed p then s1 else s1\<lparr> login_process := Some (p\<lparr> killed := True \<rparr>) \<rparr>)"

definition cancelLogin ::
  "string \<Rightarrow> (string \<rightharpoonup> CodexLoginSession) \<Rightarrow> bool \<times> (string \<rightharpoonup> CodexLoginSession)" where
  "cancelLogin sessionId loginSessions =
     (case loginSessions sessionId of
        None \<Rightarrow> (False, loginSessions)
      | Some session \<Rightarrow> (True, loginSessions(sessionId \<mapsto> cancelSession session)))"

section \<open>Invariants, the specification's wording, sample inputs\<close>

subsection \<open>Invariants of the router\<close>

text \<open>The router as the module leaves it at load time: both maps empty.\<close>

definition initialRouter :: router where
  "initialRouter =
     \<lparr> providerSessions = Map.empty, activeStreams = Map.empty, nextRef = 0, effects = [] \<rparr>"

text \<open>Object identities are handed out from \<open>nextRef\<close>, so every identity that occurs in
  the state or in the trace is below it.\<close>

definition refsFresh :: "router \<Rightarrow> bool" where
  "refsFresh s =
     ((\<forall>c. ControllerAbort c \<in> set (effects s) \<longrightarrow> c < nextRef s) \<and>
      (\<forall>h. ProviderCreated h \<in> set (effects s) \<longrightarrow> h < nextRef s) \<and>
      (\<forall>h. ProviderCleanup h \<in> set (effects s) \<longrightarrow> h < nextRef s) \<and>
      (\<forall>k a. activeStreams s k = Some a \<longrightarrow> controller a < nextRef s) \<and>
      (\<forall>k e. providerSessions s k = Some e \<longrightarrow> handle (provider e) < nextRef s))"

text \<open>The pool invariant: the providers that were created and not yet cleaned up are
  exactly the ones stored in \<open>providerSessions\<close>, and no provider is stored under two
  sub-chats.  A map holds at most one session per sub-chat, so at most one provider is
  live for each.\<close>

definition poolInv :: "router \<Rightarrow> bool" where
  "poolInv s =
     (refsFresh s \<and>
      (\<forall>h. liveProvider s h \<longleftrightarrow>
           (\<exists>k e. providerSessions s k = Some e \<and> handle (provider e) = h)) \<and>
      (\<forall>k k' e e'. providerSessions s k = Some e \<and> providerSessions s k' = Some e' \<and>
          handle (provider e) = handle (provider e') \<longrightarrow> k = k'))"

text \<open>A stored session with a credential fingerprint was built without a resume
  identifier.\<close>

definition resumeInv :: "router \<Rightarrow> bool" where
  "resumeInv s =
     (\<forall>k e. providerSessions s k = Some e \<and> authFingerprint e \<noteq> None \<longrightarrow>
        opt_existingSessionId (options (provider e)) = None)"

subsection \<open>Readings of requests and results\<close>

text \<open>Two requests agree on the triple that decides reuse.\<close>

definition sameTriple :: "providerParams \<Rightarrow> providerParams \<Rightarrow> bool" where
  "sameTriple p' p =
     (p_cwd p' = p_cwd p \<and>
      getAuthFingerprint (p_authConfig p') = getAuthFingerprint (p_authConfig p) \<and>
      p_mcpFingerprint p' = p_mcpFingerprint p)"

text \<open>The resume identifier of the provider a call returned, none when it threw.\<close>

definition resumeIdOf :: "jsObject + ACPProvider \<Rightarrow> string option" where
  "resumeIdOf r = (case r of Inl err \<Rightarrow> None | Inr prov \<Rightarrow> opt_existingSessionId (options prov))"

definition isFinish :: "jsObject \<Rightarrow> bool" where
  "isFinish c = (obj_type c = Some ''finish'')"

text \<open>Whether the recovery finds a credential: a stored API key, or a ChatGPT
  subscription that the fresh integration query reports as connected.\<close>

definition credentialExists :: "string option \<Rightarrow> client \<Rightarrow> bool" where
  "credentialExists integration c = hasAny (resolveCodexCredentialsForAuthError integration c)"

subsection \<open>The classification in the specification's words\<close>

text \<open>Some hint of the fixed list is a substring of the lower-cased text made of the
  code, a space and the message.  It is compared with \<open>isCodexAuthError\<close> below.\<close>

definition authHintMatch_spec :: "normalizedError \<Rightarrow> bool" where
  "authHintMatch_spec e =
     (\<exists>hint \<in> set AUTH_HINTS. \<exists>pre post.
        toLowerCase ((case code e of None \<Rightarrow> [] | Some c \<Rightarrow> c) @ '' '' @ message e)
          = pre @ hint @ post)"

subsection \<open>Sample inputs\<close>

text \<open>A host and a request: sub-chat \<open>c1\<close> in \<open>/repo\<close>, no credential, no servers; the
  provider and the router that the first request for it leaves behind.\<close>

definition sampleHost :: host where
  "sampleHost = \<lparr> processEnv = [(''PATH'', ''/usr/bin'')], shellEnv = [],
                  acpBinaryPath = Inr ''/opt/codex-acp'' \<rparr>"

definition sampleParams :: providerParams where
  "sampleParams = \<lparr> p_subChatId = ''c1'', p_cwd = ''/repo'', p_mcpServers = [],
                    p_mcpFingerprint = ''fp0'', p_existingSessionId = None, p_authConfig = None \<rparr>"

definition sampleProvider :: ACPProvider where
  "sampleProvider =
     \<lparr> handle = 0, options = providerOptionsFor sampleHost ''/opt/codex-acp'' sampleParams \<rparr>"

definition sampleRouter :: router where
  "sampleRouter = snd (getOrCreateProvider sampleHost sampleParams initialRouter)"

text \<open>A router with run \<open>runA\<close> registered for \<open>c1\<close> and a provider session stored.\<close>

definition runningRouter :: router where
  "runningRouter =
     snd (getOrCreateProvider sampleHost sampleParams (chatStart ''c1'' ''runA'' initialRouter))"

text \<open>A database with an empty transcript for \<open>c1\<close>, a turn for it, and a run whose
  stream yields three chunks, ends, and hands an assistant reply to \<^verbatim>\<open>onFinish\<close>.\<close>

definition sampleReply :: storedMessage where
  "sampleReply =
     \<lparr> msg_id = ''a1'', msg_role = ''assistant'', msg_parts = Some [TextPart (Some ''hi'')],
       msg_metadata = \<lparr> meta_model = Some ''gpt-5.3-codex/high'', meta_sessionId = Some ''sess-2'' \<rparr> \<rparr>"

definition sampleDb :: database where
  "sampleDb = \<lparr> subChats = [''c1'' \<mapsto> []], db_writes = [] \<rparr>"

definition sampleInput :: chatInput where
  "sampleInput =
     \<lparr> in_subChatId = ''c1'', in_chatId = ''chat-1'', in_runId = ''runA'', in_prompt = ''hello'',
       in_model = None, in_cwd = ''/repo'', in_projectPath = None, in_mode = ''agent'',
       in_sessionId = Some ''sess-1'', in_forceNewSession = False, in_images = None,
       in_authConfig = None \<rparr>"

definition sampleWorld :: runWorld where
  "sampleWorld =
     \<lparr> w_host = sampleHost, w_uuid = ''m1'',
       w_mcp = Inr \<lparr> mcpServersForSession = [], fingerprint = ''fp0'' \<rparr>,
       w_stream = [newChunk ''start'' None, newChunk ''text-delta'' None, newChunk ''finish'' None],
       w_streamEnd = None, w_response = Some sampleReply \<rparr>"

text \<open>A login session as \<^verbatim>\<open>startLogin\<close> creates it: running, child process alive.\<close>

definition sampleLogin :: CodexLoginSession where
  "sampleLogin =
     \<lparr> login_id = ''s1'', login_process = Some \<lparr> killed = False \<rparr>, login_state = StateRunning,
       login_output = [], login_url = None, login_error = None, login_exitCode = None \<rparr>"

text \<open>A renderer state: an API key is stored, nothing is pending.\<close>

definition sampleClient :: client where
  "sampleClient =
     \<lparr> forceFreshSessionSubChats = {}, pendingAuthRetryMessageAtom = None,
       codexLoginModalOpenAtom = False, codexApiKey = ''sk-1'',
       codexOnboardingCompletedAtom = False, codexOnboardingAuthMethodAtom = [],
       toasts = [], cleanupCalls = [] \<rparr>"

section \<open>Properties\<close>

subsection \<open>Evaluation rules\<close>

lemmas trim_eval = trim_def stripLeading.simps jsWhiteSpace_def

lemmas building_eval =
  building_def appendUserTurn_def isDuplicatePrompt_def providerParamsFor_def mcpSnapshotFor_def
  requestedSessionId_def getOrCreateProvider_def constructProvider_def cleanupProvider_def
  providerOptionsFor_def existingSessionIdForProvider_def hasAppManagedApiKey_def
  getAuthFingerprint_def truthy_def Let_def
  sampleWorld_def sampleInput_def sampleDb_def sampleHost_def initialRouter_def

lemmas classify_eval =
  forwardChunk_def caughtChunk_def extractCodexError_def orElse_def truthy_def
  isCodexAuthError_def searchableText_def AUTH_HINTS_def toLowerCase_def lowerChar_def
  newChunk_def newError_def Let_def

lemmas chat_eval =
  chat_def chatBody_def chatStart_def supersedeExisting_def registerRun_def releaseRun_def
  afterComplete_def chatTeardown_def abortController_def persistOnFinish_def
  catchHandler_def safeEmit_def safeComplete_def freshEmitter_def

lemmas client_eval =
  sendMessages_def onAuthError_def shouldAutoRetryOnce_def resolveCodexCredentialsForAuthError_def
  getStoredCodexCredentials_def credentialExists_def Let_def sampleClient_def

subsection \<open>Credential fingerprint\<close>

text \<open>
  C9 (as the code has it).  \<open>getAuthFingerprint\<close> is a function of the trimmed key: equal
  trimmed keys give equal fingerprints.  An absent credential gives the null fingerprint,
  and so does every credential whose key is empty or white space only; a key with
  anything else in it gives the SHA-256 digest of the trimmed key, which is not null.
\<close>

theorem getAuthFingerprint_trimmed_key:
  "(trim (apiKey a) = trim (apiKey b) \<longrightarrow>
      getAuthFingerprint (Some a) = getAuthFingerprint (Some b))
   \<and> getAuthFingerprint None = None
   \<and> (getAuthFingerprint (Some a) = None \<longleftrightarrow> trim (apiKey a) = [])
   \<and> (trim (apiKey a) \<noteq> [] \<longrightarrow>
        getAuthFingerprint (Some a) = Some (sha256hex (trim (apiKey a))))"
  by (simp add: getAuthFingerprint_def Let_def)

theorem getAuthFingerprint_trimmed_key_witness:
  "getAuthFingerprint (Some \<lparr> apiKey = '' sk-1'' \<rparr>) =
     getAuthFingerprint (Some \<lparr> apiKey = ''sk-1'' \<rparr>)
   \<and> getAuthFingerprint (Some \<lparr> apiKey = '' sk-1'' \<rparr>) = Some (sha256hex ''sk-1'')
   \<and> getAuthFingerprint (Some \<lparr> apiKey = ''  '' \<rparr>) = None"
  using getAuthFingerprint_trimmed_key [of "\<lparr> apiKey = '' sk-1'' \<rparr>" "\<lparr> apiKey = ''sk-1'' \<rparr>"]
        getAuthFingerprint_trimmed_key [of "\<lparr> apiKey = ''  '' \<rparr>" "\<lparr> apiKey = ''  '' \<rparr>"]
  by (simp add: trim_eval getAuthFingerprint_def)

text \<open>
  C9 as stated asks for different fingerprints for an absent credential and for the
  empty-string key.  Both are the null fingerprint.
\<close>

theorem getAuthFingerprint_absent_eq_empty:
  "getAuthFingerprint None = getAuthFingerprint (Some \<lparr> apiKey = '''' \<rparr>)"
  by (simp add: getAuthFingerprint_def trim_eval)

subsection \<open>Steps of the router\<close>

lemma cleanupProvider_effects:
  "effects (cleanupProvider k s) =
     effects s @ (case providerSessions s k of None \<Rightarrow> [] | Some e \<Rightarrow> [ProviderCleanup (handle (provider e))])"
  by (simp add: cleanupProvider_def split: option.splits)

lemma cleanupProvider_sessions:
  "providerSessions (cleanupProvider k s) = (providerSessions s)(k := None)"
  by (auto simp: cleanupProvider_def split: option.splits)

lemma cleanupProvider_other:
  "activeStreams (cleanupProvider k s) = activeStreams s"
  "nextRef (cleanupProvider k s) = nextRef s"
  by (simp_all add: cleanupProvider_def split: option.splits)

lemma abortController_fields:
  "effects (abortController c s) = effects s @ [ControllerAbort c]"
  "providerSessions (abortController c s) = providerSessions s"
  "activeStreams (abortController c s) = activeStreams s"
  "nextRef (abortController c s) = nextRef s"
  by (simp_all add: abortController_def)

lemmas router_step_simps =
  cleanupProvider_effects cleanupProvider_sessions cleanupProvider_other abortController_fields

lemma supersedeExisting_fields:
  assumes "activeStreams s k = Some a"
  shows "effects (supersedeExisting k s) =
           effects s @ ControllerAbort (controller a) #
             (case providerSessions s k of None \<Rightarrow> [] | Some e \<Rightarrow> [ProviderCleanup (handle (provider e))])"
    and "providerSessions (supersedeExisting k s) = (providerSessions s)(k := None)"
    and "activeStreams (supersedeExisting k s) = activeStreams s"
    and "nextRef (supersedeExisting k s) = nextRef s"
  using assms by (simp_all add: supersedeExisting_def router_step_simps)

lemma supersedeExisting_idle:
  "activeStreams s k = None \<Longrightarrow> supersedeExisting k s = s"
  by (simp add: supersedeExisting_def)

lemma registerRun_fields:
  "activeStreams (registerRun k b s) = (activeStreams s)(k \<mapsto> \<lparr> runId = b, controller = nextRef s \<rparr>)"
  "effects (registerRun k b s) = effects s"
  "providerSessions (registerRun k b s) = providerSessions s"
  "nextRef (registerRun k b s) = Suc (nextRef s)"
  by (simp_all add: registerRun_def)

lemma releaseRun_fields:
  "activeStreams (releaseRun k r s) =
     (if map_option runId (activeStreams s k) = Some r then (activeStreams s)(k := None)
      else activeStreams s)"
  "effects (releaseRun k r s) = effects s"
  "providerSessions (releaseRun k r s) = providerSessions s"
  "nextRef (releaseRun k r s) = nextRef s"
  by (cases "activeStreams s k"; simp add: releaseRun_def)+

lemma chatTeardown_fields:
  "activeStreams (chatTeardown k r c s) =
     (if map_option runId (activeStreams s k) = Some r then (activeStreams s)(k := None)
      else activeStreams s)"
  "effects (chatTeardown k r c s) = effects s @ [ControllerAbort c]"
  by (simp_all only: chatTeardown_def releaseRun_fields abortController_fields)

lemma constructProvider_ok:
  assumes "acpBinaryPath h = Inr cmd"
  shows "constructProvider h p s =
     (Inr \<lparr> handle = nextRef s, options = providerOptionsFor h cmd p \<rparr>,
      s\<lparr> nextRef := Suc (nextRef s),
         effects := effects s @ [ProviderCreated (nextRef s)],
         providerSessions := (providerSessions s)(p_subChatId p \<mapsto>
           \<lparr> provider = \<lparr> handle = nextRef s, options = providerOptionsFor h cmd p \<rparr>,
             cwd = p_cwd p,
             authFingerprint = getAuthFingerprint (p_authConfig p),
             mcpFingerprint = p_mcpFingerprint p \<rparr>) \<rparr>)"
  using assms by (simp add: constructProvider_def Let_def)

lemma constructProvider_throws:
  "acpBinaryPath h = Inl err \<Longrightarrow> constructProvider h p s = (Inl err, s)"
  by (simp add: constructProvider_def)

lemma constructProvider_stores:
  assumes "constructProvider h p s = (Inr prov, s1)"
  shows "\<exists>e. providerSessions s1 (p_subChatId p) = Some e \<and> provider e = prov \<and> sessionMatches p e"
  using assms
  by (cases "acpBinaryPath h") (auto simp: constructProvider_def Let_def sessionMatches_def)

lemma getOrCreateProvider_stores:
  assumes "getOrCreateProvider h p s = (Inr prov, s1)"
  shows "\<exists>e. providerSessions s1 (p_subChatId p) = Some e \<and> provider e = prov \<and> sessionMatches p e"
proof (cases "providerSessions s (p_subChatId p)")
  case None
  with assms have "constructProvider h p s = (Inr prov, s1)"
    by (simp add: getOrCreateProvider_def)
  then show ?thesis by (rule constructProvider_stores)
next
  case (Some existing)
  show ?thesis
  proof (cases "sessionMatches p existing")
    case True
    with Some assms have "prov = provider existing" and "s1 = s"
      by (simp_all add: getOrCreateProvider_def)
    with Some True show ?thesis by simp
  next
    case False
    with Some assms
    have "constructProvider h p (cleanupProvider (p_subChatId p) s) = (Inr prov, s1)"
      by (simp add: getOrCreateProvider_def)
    then show ?thesis by (rule constructProvider_stores)
  qed
qed

lemma getOrCreateProvider_reuse:
  assumes "providerSessions s (p_subChatId p) = Some e" and "sessionMatches p e"
  shows "getOrCreateProvider h p s = (Inr (provider e), s)"
  using assms by (simp add: getOrCreateProvider_def)

lemma getOrCreateProvider_recreate:
  assumes "providerSessions s (p_subChatId p) = Some e" and "\<not> sessionMatches p e"
  shows "getOrCreateProvider h p s = constructProvider h p (cleanupProvider (p_subChatId p) s)"
  using assms by (simp add: getOrCreateProvider_def)

lemma sessionMatches_transfer:
  assumes "sessionMatches p e"
  shows "sessionMatches p' e \<longleftrightarrow>
           (p_cwd p' = p_cwd p \<and>
            getAuthFingerprint (p_authConfig p') = getAuthFingerprint (p_authConfig p) \<and>
            p_mcpFingerprint p' = p_mcpFingerprint p)"
  using assms by (auto simp: sessionMatches_def)

subsection \<open>Invariants of the router\<close>

lemma refsFresh_initial: "refsFresh initialRouter"
  by (simp add: refsFresh_def initialRouter_def)

lemma refsFresh_cleanupProvider: "refsFresh s \<Longrightarrow> refsFresh (cleanupProvider k s)"
  unfolding refsFresh_def router_step_simps
  by (auto split: option.splits)

lemma refsFresh_abortController: "refsFresh s \<Longrightarrow> c < nextRef s \<Longrightarrow> refsFresh (abortController c s)"
  unfolding refsFresh_def abortController_fields by auto

lemma refsFresh_registerRun: "refsFresh s \<Longrightarrow> refsFresh (registerRun k b s)"
  unfolding refsFresh_def registerRun_fields by (auto simp: less_Suc_eq)

lemma refsFresh_releaseRun: "refsFresh s \<Longrightarrow> refsFresh (releaseRun k r s)"
  unfolding refsFresh_def releaseRun_fields by (auto split: if_splits)

lemma refsFresh_constructProvider: "refsFresh s \<Longrightarrow> refsFresh (snd (constructProvider h p s))"
  by (cases "acpBinaryPath h")
     (auto simp: refsFresh_def constructProvider_def Let_def less_Suc_eq)

lemma refsFresh_supersedeExisting: "refsFresh s \<Longrightarrow> refsFresh (supersedeExisting k s)"
proof (cases "activeStreams s k")
  case None
  assume "refsFresh s"
  with None show ?thesis by (simp add: supersedeExisting_idle)
next
  case (Some a)
  assume f: "refsFresh s"
  then have "controller a < nextRef s" using Some unfolding refsFresh_def by blast
  with f have "refsFresh (abortController (controller a) s)" by (rule refsFresh_abortController)
  then have "refsFresh (cleanupProvider k (abortController (controller a) s))"
    by (rule refsFresh_cleanupProvider)
  with Some show ?thesis by (simp add: supersedeExisting_def)
qed

lemma refsFresh_chatStart: "refsFresh s \<Longrightarrow> refsFresh (chatStart k b s)"
  by (simp add: chatStart_def refsFresh_registerRun refsFresh_supersedeExisting)

lemma refsFresh_getOrCreateProvider:
  assumes "refsFresh s"
  shows "refsFresh (snd (getOrCreateProvider h p s))"
proof (cases "providerSessions s (p_subChatId p)")
  case None
  with assms show ?thesis by (simp add: getOrCreateProvider_def refsFresh_constructProvider)
next
  case (Some e)
  with assms show ?thesis
    by (cases "sessionMatches p e")
       (simp_all add: getOrCreateProvider_reuse getOrCreateProvider_recreate
          refsFresh_constructProvider refsFresh_cleanupProvider)
qed

lemma liveProvider_cleanupProvider:
  "liveProvider (cleanupProvider k s) h \<longleftrightarrow>
     liveProvider s h \<and> (\<forall>e. providerSessions s k = Some e \<longrightarrow> handle (provider e) \<noteq> h)"
proof (cases "providerSessions s k")
  case None
  then show ?thesis by (simp add: liveProvider_def cleanupProvider_effects)
next
  case (Some e)
  then show ?thesis by (auto simp: liveProvider_def cleanupProvider_effects)
qed

lemma poolInv_cleanupProvider:
  assumes "poolInv s"
  shows "poolInv (cleanupProvider k s)"
proof -
  from assms have f: "refsFresh s"
    and l: "\<And>h. liveProvider s h \<longleftrightarrow> (\<exists>k e. providerSessions s k = Some e \<and> handle (provider e) = h)"
    and i: "\<And>k k' e e'. providerSessions s k = Some e \<Longrightarrow> providerSessions s k' = Some e' \<Longrightarrow>
              handle (provider e) = handle (provider e') \<Longrightarrow> k = k'"
    unfolding poolInv_def by blast+
  have "refsFresh (cleanupProvider k s)"
    using f by (rule refsFresh_cleanupProvider)
  moreover have "liveProvider (cleanupProvider k s) h \<longleftrightarrow>
      (\<exists>k' e. providerSessions (cleanupProvider k s) k' = Some e \<and> handle (provider e) = h)" for h
  proof
    assume "liveProvider (cleanupProvider k s) h"
    then have lv: "liveProvider s h"
      and ne: "\<And>e. providerSessions s k = Some e \<Longrightarrow> handle (provider e) \<noteq> h"
      by (simp_all add: liveProvider_cleanupProvider)
    from lv obtain k' e where st: "providerSessions s k' = Some e" "handle (provider e) = h"
      using l by blast
    with ne have "k' \<noteq> k" by blast
    with st show "\<exists>k' e. providerSessions (cleanupProvider k s) k' = Some e \<and> handle (provider e) = h"
      by (auto simp: cleanupProvider_sessions)
  next
    assume "\<exists>k' e. providerSessions (cleanupProvider k s) k' = Some e \<and> handle (provider e) = h"
    then obtain k' e where st: "k' \<noteq> k" "providerSessions s k' = Some e" "handle (provider e) = h"
      by (auto simp: cleanupProvider_sessions split: if_splits)
    then have "liveProvider s h" using l by blast
    moreover have "handle (provider e') \<noteq> h" if "providerSessions s k = Some e'" for e'
      using i [OF that st(2)] st(1,3) by auto
    ultimately show "liveProvider (cleanupProvider k s) h"
      by (simp add: liveProvider_cleanupProvider)
  qed
  moreover have "k1 = k2"
    if "providerSessions (cleanupProvider k s) k1 = Some e1"
       "providerSessions (cleanupProvider k s) k2 = Some e2"
       "handle (provider e1) = handle (provider e2)" for k1 k2 e1 e2
  proof -
    from that(1,2) have "providerSessions s k1 = Some e1" "providerSessions s k2 = Some e2"
      by (auto simp: cleanupProvider_sessions split: if_splits)
    then show ?thesis using that(3) by (rule i)
  qed
  ultimately show ?thesis unfolding poolInv_def by blast
qed

lemma poolInv_constructProvider:
  assumes "poolInv s" and free: "providerSessions s (p_subChatId p) = None"
  shows "poolInv (snd (constructProvider h p s))"
proof (cases "acpBinaryPath h")
  case (Inl err)
  with assms show ?thesis by (simp add: constructProvider_throws)
next
  case (Inr cmd)
  let ?s' = "snd (constructProvider h p s)"
  let ?n = "nextRef s"
  from assms have f: "refsFresh s"
    and l: "\<And>h. liveProvider s h \<longleftrightarrow> (\<exists>k e. providerSessions s k = Some e \<and> handle (provider e) = h)"
    and i: "\<And>k k' e e'. providerSessions s k = Some e \<Longrightarrow> providerSessions s k' = Some e' \<Longrightarrow>
              handle (provider e) = handle (provider e') \<Longrightarrow> k = k'"
    unfolding poolInv_def by blast+
  have eff: "effects ?s' = effects s @ [ProviderCreated ?n]"
    and ses: "providerSessions ?s' = (providerSessions s)(p_subChatId p \<mapsto>
           \<lparr> provider = \<lparr> handle = ?n, options = providerOptionsFor h cmd p \<rparr>,
             cwd = p_cwd p, authFingerprint = getAuthFingerprint (p_authConfig p),
             mcpFingerprint = p_mcpFingerprint p \<rparr>)"
    by (simp_all add: constructProvider_ok [OF Inr])
  from f have old: "handle (provider e) < ?n" if "providerSessions s k = Some e" for k e
    using that unfolding refsFresh_def by blast
  from f have noclean: "ProviderCleanup ?n \<notin> set (effects s)"
    and nocreate: "ProviderCreated ?n \<notin> set (effects s)"
    unfolding refsFresh_def by blast+
  have live: "liveProvider ?s' x \<longleftrightarrow> liveProvider s x \<or> x = ?n" for x
    using noclean by (auto simp: liveProvider_def eff)
  have "refsFresh ?s'"
    using f by (rule refsFresh_constructProvider)
  moreover have "liveProvider ?s' x \<longleftrightarrow>
      (\<exists>k e. providerSessions ?s' k = Some e \<and> handle (provider e) = x)" for x
  proof
    assume "liveProvider ?s' x"
    then consider "liveProvider s x" | "x = ?n" using live by blast
    then show "\<exists>k e. providerSessions ?s' k = Some e \<and> handle (provider e) = x"
    proof cases
      case 1
      then obtain k e where st: "providerSessions s k = Some e" "handle (provider e) = x"
        using l by blast
      with free have "k \<noteq> p_subChatId p" by auto
      with st show ?thesis by (auto simp: ses)
    next
      case 2
      then show ?thesis by (auto simp: ses)
    qed
  next
    assume "\<exists>k e. providerSessions ?s' k = Some e \<and> handle (provider e) = x"
    then obtain k e where st: "providerSessions ?s' k = Some e" "handle (provider e) = x" by blast
    show "liveProvider ?s' x"
    proof (cases "k = p_subChatId p")
      case True
      with st have "x = ?n" by (auto simp: ses)
      then show ?thesis by (simp add: live)
    next
      case False
      with st have "providerSessions s k = Some e" by (simp add: ses)
      with st(2) have "liveProvider s x" using l by blast
      then show ?thesis by (simp add: live)
    qed
  qed
  moreover have "k1 = k2"
    if a: "providerSessions ?s' k1 = Some e1" and b: "providerSessions ?s' k2 = Some e2"
       and c: "handle (provider e1) = handle (provider e2)" for k1 k2 e1 e2
  proof (cases "k1 = p_subChatId p"; cases "k2 = p_subChatId p")
    assume "k1 = p_subChatId p" "k2 = p_subChatId p"
    then show ?thesis by simp
  next
    assume k: "k1 = p_subChatId p" "k2 \<noteq> p_subChatId p"
    with a b have "handle (provider e1) = ?n" "providerSessions s k2 = Some e2"
      by (auto simp: ses)
    with old [of k2 e2] c show ?thesis by simp
  next
    assume k: "k1 \<noteq> p_subChatId p" "k2 = p_subChatId p"
    with a b have "handle (provider e2) = ?n" "providerSessions s k1 = Some e1"
      by (auto simp: ses)
    with old [of k1 e1] c show ?thesis by simp
  next
    assume k: "k1 \<noteq> p_subChatId p" "k2 \<noteq> p_subChatId p"
    with a b have "providerSessions s k1 = Some e1" "providerSessions s k2 = Some e2"
      by (simp_all add: ses)
    then show ?thesis using c by (rule i)
  qed
  ultimately show ?thesis unfolding poolInv_def by blast
qed

lemma poolInv_getOrCreateProvider:
  assumes "poolInv s"
  shows "poolInv (snd (getOrCreateProvider h p s))"
proof (cases "providerSessions s (p_subChatId p)")
  case None
  with assms show ?thesis
    by (simp add: getOrCreateProvider_def poolInv_constructProvider)
next
  case (Some e)
  show ?thesis
  proof (cases "sessionMatches p e")
    case True
    with Some assms show ?thesis by (simp add: getOrCreateProvider_reuse)
  next
    case False
    have "poolInv (cleanupProvider (p_subChatId p) s)"
      using assms by (rule poolInv_cleanupProvider)
    moreover have "providerSessions (cleanupProvider (p_subChatId p) s) (p_subChatId p) = None"
      by (simp add: cleanupProvider_sessions)
    ultimately have "poolInv (snd (constructProvider h p (cleanupProvider (p_subChatId p) s)))"
      by (rule poolInv_constructProvider)
    with Some False show ?thesis by (simp add: getOrCreateProvider_recreate)
  qed
qed

lemma poolInv_initial: "poolInv initialRouter"
  by (simp add: poolInv_def refsFresh_def liveProvider_def initialRouter_def)

lemma poolInv_abortController: "poolInv s \<Longrightarrow> c < nextRef s \<Longrightarrow> poolInv (abortController c s)"
  unfolding poolInv_def
  by (simp add: refsFresh_abortController liveProvider_def abortController_fields)

lemma poolInv_registerRun: "poolInv s \<Longrightarrow> poolInv (registerRun k b s)"
  unfolding poolInv_def
  by (simp add: refsFresh_registerRun liveProvider_def registerRun_fields)

lemma poolInv_releaseRun: "poolInv s \<Longrightarrow> poolInv (releaseRun k r s)"
  unfolding poolInv_def
  by (simp add: refsFresh_releaseRun liveProvider_def releaseRun_fields(2,3))

lemma poolInv_supersedeExisting: "poolInv s \<Longrightarrow> poolInv (supersedeExisting k s)"
proof (cases "activeStreams s k")
  case None
  assume "poolInv s"
  with None show ?thesis by (simp add: supersedeExisting_idle)
next
  case (Some a)
  assume inv: "poolInv s"
  then have "controller a < nextRef s"
    using Some unfolding poolInv_def refsFresh_def by blast
  with inv have "poolInv (abortController (controller a) s)"
    by (rule poolInv_abortController)
  then have "poolInv (cleanupProvider k (abortController (controller a) s))"
    by (rule poolInv_cleanupProvider)
  with Some show ?thesis by (simp add: supersedeExisting_def)
qed

lemma poolInv_chatStart: "poolInv s \<Longrightarrow> poolInv (chatStart k b s)"
  by (simp add: chatStart_def poolInv_registerRun poolInv_supersedeExisting)

subsection \<open>Cancelling a run\<close>

lemma cancel_absent:
  "activeStreams s k = None \<Longrightarrow> cancel k r s = (\<lparr> cancelled = False, ignoredStale = False \<rparr>, s)"
  by (simp add: cancel_def)

lemma cancel_stale:
  "activeStreams s k = Some a \<Longrightarrow> runId a \<noteq> r \<Longrightarrow>
     cancel k r s = (\<lparr> cancelled = False, ignoredStale = True \<rparr>, s)"
  by (simp add: cancel_def)

lemma cancel_match:
  assumes "activeStreams s k = Some a" and "runId a = r"
  shows "fst (cancel k r s) = \<lparr> cancelled = True, ignoredStale = False \<rparr>"
    and "effects (snd (cancel k r s)) =
           effects s @ ControllerAbort (controller a) #
             (case providerSessions s k of None \<Rightarrow> [] | Some e \<Rightarrow> [ProviderCleanup (handle (provider e))])"
    and "providerSessions (snd (cancel k r s)) = (providerSessions s)(k := None)"
    and "activeStreams (snd (cancel k r s)) = (activeStreams s)(k := None)"
    and "nextRef (snd (cancel k r s)) = nextRef s"
  using assms by (simp_all add: cancel_def Let_def router_step_simps)

text \<open>
  C3.  \<open>cancel\<close> has three outcomes.  With no entry for the sub-chat it answers
  \<open>cancelled = False, ignoredStale = False\<close> and the state is unchanged.  With an entry
  of another run it answers \<open>cancelled = False, ignoredStale = True\<close> and the state,
  entry and provider session included, is unchanged.  With the run's own entry it aborts
  that run's controller, cleans up the provider session of the sub-chat, removes the
  entry and answers \<open>cancelled = True, ignoredStale = False\<close>.
\<close>

theorem cancel_three_cases:
  "(activeStreams s k = None \<longrightarrow>
      cancel k r s = (\<lparr> cancelled = False, ignoredStale = False \<rparr>, s))
   \<and> (activeStreams s k = Some a \<and> runId a \<noteq> r \<longrightarrow>
      cancel k r s = (\<lparr> cancelled = False, ignoredStale = True \<rparr>, s))
   \<and> (activeStreams s k = Some a \<and> runId a = r \<longrightarrow>
      fst (cancel k r s) = \<lparr> cancelled = True, ignoredStale = False \<rparr> \<and>
      effects (snd (cancel k r s)) =
        effects s @ ControllerAbort (controller a) #
          (case providerSessions s k of None \<Rightarrow> [] | Some e \<Rightarrow> [ProviderCleanup (handle (provider e))]) \<and>
      providerSessions (snd (cancel k r s)) = (providerSessions s)(k := None) \<and>
      activeStreams (snd (cancel k r s)) = (activeStreams s)(k := None) \<and>
      nextRef (snd (cancel k r s)) = nextRef s)"
proof (intro conjI impI)
  assume "activeStreams s k = None"
  then show "cancel k r s = (\<lparr> cancelled = False, ignoredStale = False \<rparr>, s)"
    by (rule cancel_absent)
next
  assume "activeStreams s k = Some a \<and> runId a \<noteq> r"
  then show "cancel k r s = (\<lparr> cancelled = False, ignoredStale = True \<rparr>, s)"
    by (simp add: cancel_stale)
next
  assume h: "activeStreams s k = Some a \<and> runId a = r"
  then have a: "activeStreams s k = Some a" and r: "runId a = r" by simp_all
  show "fst (cancel k r s) = \<lparr> cancelled = True, ignoredStale = False \<rparr>"
    by (rule cancel_match(1) [OF a r])
  show "effects (snd (cancel k r s)) =
        effects s @ ControllerAbort (controller a) #
          (case providerSessions s k of None \<Rightarrow> [] | Some e \<Rightarrow> [ProviderCleanup (handle (provider e))])"
    by (rule cancel_match(2) [OF a r])
  show "providerSessions (snd (cancel k r s)) = (providerSessions s)(k := None)"
    by (rule cancel_match(3) [OF a r])
  show "activeStreams (snd (cancel k r s)) = (activeStreams s)(k := None)"
    by (rule cancel_match(4) [OF a r])
  show "nextRef (snd (cancel k r s)) = nextRef s"
    by (rule cancel_match(5) [OF a r])
qed

theorem cancel_three_cases_witness:
  "cancel ''c1'' ''runA'' initialRouter = (\<lparr> cancelled = False, ignoredStale = False \<rparr>, initialRouter)
   \<and> fst (cancel ''c1'' ''runA'' (chatStart ''c1'' ''runB'' initialRouter))
       = \<lparr> cancelled = False, ignoredStale = True \<rparr>
   \<and> snd (cancel ''c1'' ''runA'' (chatStart ''c1'' ''runB'' initialRouter))
       = chatStart ''c1'' ''runB'' initialRouter
   \<and> fst (cancel ''c1'' ''runB'' (chatStart ''c1'' ''runB'' initialRouter))
       = \<lparr> cancelled = True, ignoredStale = False \<rparr>
   \<and> activeStreams (snd (cancel ''c1'' ''runB'' (chatStart ''c1'' ''runB'' initialRouter))) ''c1'' = None
   \<and> effects (snd (cancel ''c1'' ''runB'' (chatStart ''c1'' ''runB'' initialRouter))) = [ControllerAbort 0]"
  using cancel_three_cases [where s = initialRouter and k = "''c1''" and r = "''runA''"]
        cancel_three_cases [where s = "chatStart ''c1'' ''runB'' initialRouter" and k = "''c1''"
          and a = "\<lparr> runId = ''runB'', controller = 0 \<rparr>" and r = "''runA''"]
        cancel_three_cases [where s = "chatStart ''c1'' ''runB'' initialRouter" and k = "''c1''"
          and a = "\<lparr> runId = ''runB'', controller = 0 \<rparr>" and r = "''runB''"]
  by (simp add: initialRouter_def chatStart_def registerRun_def supersedeExisting_def)

subsection \<open>Superseding a run\<close>

text \<open>
  C1.  Let run \<open>a\<close> be registered for sub-chat \<open>k\<close> when \<open>chat\<close> starts run \<open>b\<close>.
  The first step aborts the controller of \<open>a\<close> and cleans up the provider session while
  the entry of \<open>a\<close> is still the stored one; only then the entry becomes that of \<open>b\<close>
  with a fresh controller, which is not aborted.  The removal at the end of a run and in
  the teardown deletes the entry exactly when the stored run identifier is the run's own,
  so when \<open>a\<close> finishes or is torn down after \<open>b\<close> started, the entry of \<open>b\<close> stays.
\<close>

theorem supersede_then_compare_and_delete:
  assumes A: "activeStreams s k = Some a"
  shows "effects (supersedeExisting k s) =
           effects s @ ControllerAbort (controller a) #
             (case providerSessions s k of None \<Rightarrow> [] | Some e \<Rightarrow> [ProviderCleanup (handle (provider e))])
         \<and> providerSessions (supersedeExisting k s) k = None
         \<and> activeStreams (supersedeExisting k s) k = Some a
         \<and> chatStart k b s = registerRun k b (supersedeExisting k s)
         \<and> activeStreams (chatStart k b s) k = Some \<lparr> runId = b, controller = nextRef s \<rparr>
         \<and> aborted (chatStart k b s) (controller a)
         \<and> (refsFresh s \<longrightarrow> \<not> aborted (chatStart k b s) (nextRef s))
         \<and> (runId a \<noteq> b \<longrightarrow>
              activeStreams (releaseRun k (runId a) (chatStart k b s)) = activeStreams (chatStart k b s) \<and>
              activeStreams (chatTeardown k (runId a) (controller a) (chatStart k b s))
                = activeStreams (chatStart k b s))
         \<and> activeStreams (releaseRun k r s) =
              (if runId a = r then (activeStreams s)(k := None) else activeStreams s)
         \<and> activeStreams (chatTeardown k r c s) =
              (if runId a = r then (activeStreams s)(k := None) else activeStreams s)"
proof -
  note sup = supersedeExisting_fields [OF A]
  have 1: "effects (supersedeExisting k s) =
           effects s @ ControllerAbort (controller a) #
             (case providerSessions s k of None \<Rightarrow> [] | Some e \<Rightarrow> [ProviderCleanup (handle (provider e))])"
    by (rule sup(1))
  have 2: "providerSessions (supersedeExisting k s) k = None"
    by (simp add: sup(2))
  have 3: "activeStreams (supersedeExisting k s) k = Some a"
    by (simp add: sup(3) A)
  have 4: "chatStart k b s = registerRun k b (supersedeExisting k s)"
    by (simp add: chatStart_def)
  have 5: "activeStreams (chatStart k b s) k = Some \<lparr> runId = b, controller = nextRef s \<rparr>"
    by (simp add: chatStart_def registerRun_fields sup(4))
  have eff: "effects (chatStart k b s) = effects (supersedeExisting k s)"
    by (simp add: chatStart_def registerRun_fields)
  have 6: "aborted (chatStart k b s) (controller a)"
    by (simp add: aborted_def eff 1)
  have 7: "refsFresh s \<longrightarrow> \<not> aborted (chatStart k b s) (nextRef s)"
  proof
    assume f: "refsFresh s"
    then have "controller a < nextRef s" and "ControllerAbort (nextRef s) \<notin> set (effects s)"
      using A by (auto simp: refsFresh_def)
    then show "\<not> aborted (chatStart k b s) (nextRef s)"
      by (auto simp: aborted_def eff 1 split: option.splits)
  qed
  have 8: "runId a \<noteq> b \<longrightarrow>
              activeStreams (releaseRun k (runId a) (chatStart k b s)) = activeStreams (chatStart k b s) \<and>
              activeStreams (chatTeardown k (runId a) (controller a) (chatStart k b s))
                = activeStreams (chatStart k b s)"
    by (simp add: releaseRun_fields chatTeardown_fields 5)
  have 9: "activeStreams (releaseRun k r s) =
              (if runId a = r then (activeStreams s)(k := None) else activeStreams s)"
    by (simp add: releaseRun_fields A)
  have 10: "activeStreams (chatTeardown k r c s) =
              (if runId a = r then (activeStreams s)(k := None) else activeStreams s)"
    by (simp add: chatTeardown_fields A)
  from 1 2 3 4 5 6 7 8 9 10 show ?thesis by (intro conjI)
qed

lemma runningRouter_fields:
  "activeStreams runningRouter ''c1'' = Some \<lparr> runId = ''runA'', controller = 0 \<rparr>"
  "map_option (\<lambda>e. handle (provider e)) (providerSessions runningRouter ''c1'') = Some 1"
  "effects runningRouter = [ProviderCreated 1]"
  "nextRef runningRouter = 2"
  by (simp_all add: runningRouter_def getOrCreateProvider_def constructProvider_def chatStart_def
        registerRun_def supersedeExisting_def initialRouter_def sampleHost_def sampleParams_def
        Let_def)

lemma runningRouter_fresh: "refsFresh runningRouter"
  unfolding runningRouter_def
  by (intro refsFresh_getOrCreateProvider refsFresh_chatStart refsFresh_initial)

theorem supersede_then_compare_and_delete_witness:
  "effects (chatStart ''c1'' ''runB'' runningRouter)
     = [ProviderCreated 1, ControllerAbort 0, ProviderCleanup 1]
   \<and> providerSessions (chatStart ''c1'' ''runB'' runningRouter) ''c1'' = None
   \<and> activeStreams (chatStart ''c1'' ''runB'' runningRouter) ''c1''
        = Some \<lparr> runId = ''runB'', controller = 2 \<rparr>
   \<and> \<not> aborted (chatStart ''c1'' ''runB'' runningRouter) 2
   \<and> activeStreams (releaseRun ''c1'' ''runA'' (chatStart ''c1'' ''runB'' runningRouter)) ''c1''
        = Some \<lparr> runId = ''runB'', controller = 2 \<rparr>
   \<and> activeStreams (chatTeardown ''c1'' ''runA'' 0 (chatStart ''c1'' ''runB'' runningRouter)) ''c1''
        = Some \<lparr> runId = ''runB'', controller = 2 \<rparr>
   \<and> activeStreams (releaseRun ''c1'' ''runA'' runningRouter) ''c1'' = None"
proof -
  let ?a = "\<lparr> runId = ''runA'', controller = 0 \<rparr>"
  note f = runningRouter_fields
  note t = supersede_then_compare_and_delete
             [where s = runningRouter and k = "''c1''" and a = ?a and b = "''runB''"
                and r = "''runA''" and c = 0, OF f(1)]
  have ne: "runId ?a \<noteq> ''runB''" by simp
  obtain e where e: "providerSessions runningRouter ''c1'' = Some e" "handle (provider e) = 1"
    using f(2) by auto
  have sup: "effects (supersedeExisting ''c1'' runningRouter)
               = [ProviderCreated 1, ControllerAbort 0, ProviderCleanup 1]"
    using t [THEN conjunct1] by (simp add: f e)
  have reg: "chatStart ''c1'' ''runB'' runningRouter
               = registerRun ''c1'' ''runB'' (supersedeExisting ''c1'' runningRouter)"
    by (rule t [THEN conjunct2, THEN conjunct2, THEN conjunct2, THEN conjunct1])
  have 1: "effects (chatStart ''c1'' ''runB'' runningRouter)
               = [ProviderCreated 1, ControllerAbort 0, ProviderCleanup 1]"
    by (simp add: reg registerRun_def sup)
  have 2: "providerSessions (chatStart ''c1'' ''runB'' runningRouter) ''c1'' = None"
    using t [THEN conjunct2, THEN conjunct1] by (simp add: reg registerRun_def)
  have 3: "activeStreams (chatStart ''c1'' ''runB'' runningRouter) ''c1''
        = Some \<lparr> runId = ''runB'', controller = 2 \<rparr>"
    using t [THEN conjunct2, THEN conjunct2, THEN conjunct2, THEN conjunct2, THEN conjunct1]
    by (simp add: f)
  have 4: "\<not> aborted (chatStart ''c1'' ''runB'' runningRouter) 2"
    using t [THEN conjunct2, THEN conjunct2, THEN conjunct2, THEN conjunct2, THEN conjunct2,
             THEN conjunct2, THEN conjunct1, THEN mp, OF runningRouter_fresh]
    by (simp add: f)
  have 56: "activeStreams (releaseRun ''c1'' (runId ?a) (chatStart ''c1'' ''runB'' runningRouter))
              = activeStreams (chatStart ''c1'' ''runB'' runningRouter) \<and>
            activeStreams (chatTeardown ''c1'' (runId ?a) (controller ?a)
                             (chatStart ''c1'' ''runB'' runningRouter))
              = activeStreams (chatStart ''c1'' ''runB'' runningRouter)"
    by (rule t [THEN conjunct2, THEN conjunct2, THEN conjunct2, THEN conjunct2, THEN conjunct2,
                THEN conjunct2, THEN conjunct2, THEN conjunct1, THEN mp, OF ne])
  have 7: "activeStreams (releaseRun ''c1'' ''runA'' runningRouter) ''c1'' = None"
    using t [THEN conjunct2, THEN conjunct2, THEN conjunct2, THEN conjunct2, THEN conjunct2,
             THEN conjunct2, THEN conjunct2, THEN conjunct2, THEN conjunct1]
    by simp
  from 1 2 3 4 56 7 show ?thesis by (simp add: 3)
qed

subsection \<open>Reusing or recreating the provider\<close>

text \<open>
  C2.  After a call of \<open>getOrCreateProvider\<close> returned a provider for a sub-chat, a second
  call for the same sub-chat with the same working directory, credential fingerprint
  and MCP fingerprint returns the same provider and changes nothing.  If one of the three
  differs, the stored provider is cleaned up and its entry removed before anything is
  constructed (when construction throws, the entry stays removed); otherwise a new
  provider is constructed and stored.  The pool invariant is kept, so at most one live
  provider exists per sub-chat.
\<close>

theorem getOrCreateProvider_reuse_or_recreate:
  assumes first: "getOrCreateProvider h p s = (Inr prov, s1)"
      and key: "p_subChatId p' = p_subChatId p"
  shows "(sameTriple p' p \<longrightarrow> getOrCreateProvider h' p' s1 = (Inr prov, s1))
       \<and> (\<not> sameTriple p' p \<longrightarrow>
            getOrCreateProvider h' p' s1 =
              constructProvider h' p' (cleanupProvider (p_subChatId p) s1) \<and>
            effects (cleanupProvider (p_subChatId p) s1) = effects s1 @ [ProviderCleanup (handle prov)] \<and>
            providerSessions (cleanupProvider (p_subChatId p) s1) (p_subChatId p) = None)
       \<and> (\<not> sameTriple p' p \<and> acpBinaryPath h' = Inr cmd \<longrightarrow>
            fst (getOrCreateProvider h' p' s1)
              = Inr \<lparr> handle = nextRef s1, options = providerOptionsFor h' cmd p' \<rparr> \<and>
            effects (snd (getOrCreateProvider h' p' s1))
              = effects s1 @ [ProviderCleanup (handle prov), ProviderCreated (nextRef s1)] \<and>
            providerSessions (snd (getOrCreateProvider h' p' s1)) (p_subChatId p)
              = Some \<lparr> provider = \<lparr> handle = nextRef s1, options = providerOptionsFor h' cmd p' \<rparr>,
                       cwd = p_cwd p',
                       authFingerprint = getAuthFingerprint (p_authConfig p'),
                       mcpFingerprint = p_mcpFingerprint p' \<rparr>)
       \<and> (\<not> sameTriple p' p \<and> acpBinaryPath h' = Inl err \<longrightarrow>
            fst (getOrCreateProvider h' p' s1) = Inl err \<and>
            effects (snd (getOrCreateProvider h' p' s1)) = effects s1 @ [ProviderCleanup (handle prov)] \<and>
            providerSessions (snd (getOrCreateProvider h' p' s1)) (p_subChatId p) = None)
       \<and> (poolInv s \<longrightarrow>
            poolInv s1 \<and> poolInv (snd (getOrCreateProvider h' p' s1)) \<and> handle prov < nextRef s1)"
proof -
  let ?k = "p_subChatId p"
  from getOrCreateProvider_stores [OF first]
  obtain e where st: "providerSessions s1 ?k = Some e" and pe: "provider e = prov"
    and m: "sessionMatches p e" by blast
  have tr: "sessionMatches p' e \<longleftrightarrow> sameTriple p' p"
    by (simp add: sessionMatches_transfer [OF m] sameTriple_def)
  from st key have st': "providerSessions s1 (p_subChatId p') = Some e" by simp
  have reuse: "sameTriple p' p \<longrightarrow> getOrCreateProvider h' p' s1 = (Inr prov, s1)"
    using getOrCreateProvider_reuse [OF st'] tr pe by simp
  have rec: "getOrCreateProvider h' p' s1 = constructProvider h' p' (cleanupProvider ?k s1)"
    if "\<not> sameTriple p' p"
    using getOrCreateProvider_recreate [OF st'] tr that key by simp
  have cl: "effects (cleanupProvider ?k s1) = effects s1 @ [ProviderCleanup (handle prov)]"
       "providerSessions (cleanupProvider ?k s1) ?k = None"
       "nextRef (cleanupProvider ?k s1) = nextRef s1"
    by (simp_all add: router_step_simps st pe)
  have n1: "\<not> sameTriple p' p \<longrightarrow>
            getOrCreateProvider h' p' s1 = constructProvider h' p' (cleanupProvider ?k s1) \<and>
            effects (cleanupProvider ?k s1) = effects s1 @ [ProviderCleanup (handle prov)] \<and>
            providerSessions (cleanupProvider ?k s1) ?k = None"
    using rec cl by simp
  have n2: "\<not> sameTriple p' p \<and> acpBinaryPath h' = Inr cmd \<longrightarrow>
            fst (getOrCreateProvider h' p' s1)
              = Inr \<lparr> handle = nextRef s1, options = providerOptionsFor h' cmd p' \<rparr> \<and>
            effects (snd (getOrCreateProvider h' p' s1))
              = effects s1 @ [ProviderCleanup (handle prov), ProviderCreated (nextRef s1)] \<and>
            providerSessions (snd (getOrCreateProvider h' p' s1)) ?k
              = Some \<lparr> provider = \<lparr> handle = nextRef s1, options = providerOptionsFor h' cmd p' \<rparr>,
                       cwd = p_cwd p',
                       authFingerprint = getAuthFingerprint (p_authConfig p'),
                       mcpFingerprint = p_mcpFingerprint p' \<rparr>"
  proof
    assume a: "\<not> sameTriple p' p \<and> acpBinaryPath h' = Inr cmd"
    then have "getOrCreateProvider h' p' s1 = constructProvider h' p' (cleanupProvider ?k s1)"
      using rec by simp
    then show "fst (getOrCreateProvider h' p' s1)
              = Inr \<lparr> handle = nextRef s1, options = providerOptionsFor h' cmd p' \<rparr> \<and>
            effects (snd (getOrCreateProvider h' p' s1))
              = effects s1 @ [ProviderCleanup (handle prov), ProviderCreated (nextRef s1)] \<and>
            providerSessions (snd (getOrCreateProvider h' p' s1)) ?k
              = Some \<lparr> provider = \<lparr> handle = nextRef s1, options = providerOptionsFor h' cmd p' \<rparr>,
                       cwd = p_cwd p',
                       authFingerprint = getAuthFingerprint (p_authConfig p'),
                       mcpFingerprint = p_mcpFingerprint p' \<rparr>"
      using a key by (simp add: constructProvider_ok cl)
  qed
  have n3: "\<not> sameTriple p' p \<and> acpBinaryPath h' = Inl err \<longrightarrow>
            fst (getOrCreateProvider h' p' s1) = Inl err \<and>
            effects (snd (getOrCreateProvider h' p' s1)) = effects s1 @ [ProviderCleanup (handle prov)] \<and>
            providerSessions (snd (getOrCreateProvider h' p' s1)) ?k = None"
    using rec by (simp add: constructProvider_throws cl)
  have inv: "poolInv s \<longrightarrow>
            poolInv s1 \<and> poolInv (snd (getOrCreateProvider h' p' s1)) \<and> handle prov < nextRef s1"
  proof
    assume "poolInv s"
    then have "poolInv (snd (getOrCreateProvider h p s))"
      by (rule poolInv_getOrCreateProvider)
    then have i1: "poolInv s1" by (simp add: first)
    then have "poolInv (snd (getOrCreateProvider h' p' s1))"
      by (rule poolInv_getOrCreateProvider)
    moreover from i1 st pe have "handle prov < nextRef s1"
      unfolding poolInv_def refsFresh_def by blast
    ultimately show "poolInv s1 \<and> poolInv (snd (getOrCreateProvider h' p' s1)) \<and> handle prov < nextRef s1"
      using i1 by simp
  qed
  from reuse n1 n2 n3 inv show ?thesis by (intro conjI)
qed

lemma sample_first:
  "getOrCreateProvider sampleHost sampleParams initialRouter = (Inr sampleProvider, sampleRouter)"
  by (simp add: sampleRouter_def sampleProvider_def getOrCreateProvider_def initialRouter_def
        constructProvider_def sampleHost_def Let_def)

theorem getOrCreateProvider_reuse_or_recreate_witness:
  "getOrCreateProvider sampleHost sampleParams initialRouter = (Inr sampleProvider, sampleRouter)
   \<and> getOrCreateProvider sampleHost (sampleParams\<lparr> p_existingSessionId := Some ''s9'' \<rparr>) sampleRouter
       = (Inr sampleProvider, sampleRouter)
   \<and> effects (snd (getOrCreateProvider sampleHost
                     (sampleParams\<lparr> p_mcpFingerprint := ''fp1'' \<rparr>) sampleRouter))
       = [ProviderCreated 0, ProviderCleanup 0, ProviderCreated 1]
   \<and> effects (snd (getOrCreateProvider (sampleHost\<lparr> acpBinaryPath := Inl (newError ''no binary'') \<rparr>)
                     (sampleParams\<lparr> p_cwd := ''/other'' \<rparr>) sampleRouter))
       = [ProviderCreated 0, ProviderCleanup 0]
   \<and> providerSessions (snd (getOrCreateProvider (sampleHost\<lparr> acpBinaryPath := Inl (newError ''no binary'') \<rparr>)
                     (sampleParams\<lparr> p_cwd := ''/other'' \<rparr>) sampleRouter)) ''c1'' = None
   \<and> poolInv sampleRouter
   \<and> poolInv (snd (getOrCreateProvider sampleHost
                     (sampleParams\<lparr> p_mcpFingerprint := ''fp1'' \<rparr>) sampleRouter))"
proof -
  have eff: "effects sampleRouter = [ProviderCreated 0]" "nextRef sampleRouter = Suc 0"
    by (simp_all add: sampleRouter_def getOrCreateProvider_def initialRouter_def
          constructProvider_def sampleHost_def Let_def)
  have hp: "handle sampleProvider = 0" by (simp add: sampleProvider_def)
  have same: "sameTriple (sampleParams\<lparr> p_existingSessionId := Some ''s9'' \<rparr>) sampleParams"
    and d1: "\<not> sameTriple (sampleParams\<lparr> p_mcpFingerprint := ''fp1'' \<rparr>) sampleParams"
    and d2: "\<not> sameTriple (sampleParams\<lparr> p_cwd := ''/other'' \<rparr>) sampleParams"
    by (simp_all add: sameTriple_def sampleParams_def)
  have k: "p_subChatId sampleParams = ''c1''" by (simp add: sampleParams_def)
  have hb: "acpBinaryPath sampleHost = Inr ''/opt/codex-acp''" by (simp add: sampleHost_def)
  note t = getOrCreateProvider_reuse_or_recreate [OF sample_first]
  have 1: "getOrCreateProvider sampleHost (sampleParams\<lparr> p_existingSessionId := Some ''s9'' \<rparr>) sampleRouter
       = (Inr sampleProvider, sampleRouter)"
    using t [of "sampleParams\<lparr> p_existingSessionId := Some ''s9'' \<rparr>" sampleHost,
             THEN conjunct1, THEN mp, OF _ same]
    by (simp add: sampleParams_def)
  have 2: "effects (snd (getOrCreateProvider sampleHost
                     (sampleParams\<lparr> p_mcpFingerprint := ''fp1'' \<rparr>) sampleRouter))
       = [ProviderCreated 0, ProviderCleanup 0, ProviderCreated 1]"
    using t [of "sampleParams\<lparr> p_mcpFingerprint := ''fp1'' \<rparr>" sampleHost "''/opt/codex-acp''",
             THEN conjunct2, THEN conjunct2, THEN conjunct1, THEN mp, OF _ conjI [OF d1 hb]]
    by (simp add: eff hp sampleParams_def)
  have 34: "effects (snd (getOrCreateProvider (sampleHost\<lparr> acpBinaryPath := Inl (newError ''no binary'') \<rparr>)
                     (sampleParams\<lparr> p_cwd := ''/other'' \<rparr>) sampleRouter))
       = [ProviderCreated 0, ProviderCleanup 0]
    \<and> providerSessions (snd (getOrCreateProvider (sampleHost\<lparr> acpBinaryPath := Inl (newError ''no binary'') \<rparr>)
                     (sampleParams\<lparr> p_cwd := ''/other'' \<rparr>) sampleRouter)) ''c1'' = None"
    using t [of "sampleParams\<lparr> p_cwd := ''/other'' \<rparr>"
               "sampleHost\<lparr> acpBinaryPath := Inl (newError ''no binary'') \<rparr>" _ "newError ''no binary''",
             THEN conjunct2, THEN conjunct2, THEN conjunct2, THEN conjunct1, THEN mp, OF _ conjI [OF d2]]
    by (simp add: eff hp k sampleParams_def)
  then have 3: "effects (snd (getOrCreateProvider (sampleHost\<lparr> acpBinaryPath := Inl (newError ''no binary'') \<rparr>)
                     (sampleParams\<lparr> p_cwd := ''/other'' \<rparr>) sampleRouter))
       = [ProviderCreated 0, ProviderCleanup 0]"
    and 4: "providerSessions (snd (getOrCreateProvider (sampleHost\<lparr> acpBinaryPath := Inl (newError ''no binary'') \<rparr>)
                     (sampleParams\<lparr> p_cwd := ''/other'' \<rparr>) sampleRouter)) ''c1'' = None"
    by simp_all
  have 56: "poolInv sampleRouter \<and> poolInv (snd (getOrCreateProvider sampleHost
                     (sampleParams\<lparr> p_mcpFingerprint := ''fp1'' \<rparr>) sampleRouter))"
    using t [of "sampleParams\<lparr> p_mcpFingerprint := ''fp1'' \<rparr>" sampleHost,
             THEN conjunct2, THEN conjunct2, THEN conjunct2, THEN conjunct2, THEN mp, OF _ poolInv_initial]
    by (simp add: sampleParams_def)
  then have 5: "poolInv sampleRouter"
    and 6: "poolInv (snd (getOrCreateProvider sampleHost
                     (sampleParams\<lparr> p_mcpFingerprint := ''fp1'' \<rparr>) sampleRouter))"
    by simp_all
  from sample_first 1 2 3 4 5 6 show ?thesis by (intro conjI)
qed

subsection \<open>Resume identifier\<close>

lemma hasAppManagedApiKey_fingerprint:
  "hasAppManagedApiKey cfg \<longleftrightarrow> getAuthFingerprint cfg \<noteq> None"
  by (cases cfg) (simp_all add: hasAppManagedApiKey_def getAuthFingerprint_def Let_def)

lemma providerOptionsFor_resume:
  "opt_existingSessionId (providerOptionsFor h cmd p) =
     (if hasAppManagedApiKey (p_authConfig p) \<or> \<not> truthy (p_existingSessionId p) then None
      else p_existingSessionId p)"
  by (simp add: providerOptionsFor_def existingSessionIdForProvider_def truthy_def)

lemma constructProvider_resume:
  assumes "constructProvider h p s = (Inr prov, s')"
  shows "opt_existingSessionId (options prov) =
     (if hasAppManagedApiKey (p_authConfig p) \<or> \<not> truthy (p_existingSessionId p) then None
      else p_existingSessionId p)"
    and "effects s' = effects s @ [ProviderCreated (handle prov)]"
proof -
  from assms obtain cmd where c: "acpBinaryPath h = Inr cmd"
    by (cases "acpBinaryPath h") (auto simp: constructProvider_def)
  from assms have "prov = \<lparr> handle = nextRef s, options = providerOptionsFor h cmd p \<rparr>"
    and s': "effects s' = effects s @ [ProviderCreated (nextRef s)]"
    by (auto simp: constructProvider_ok [OF c])
  then show "opt_existingSessionId (options prov) =
     (if hasAppManagedApiKey (p_authConfig p) \<or> \<not> truthy (p_existingSessionId p) then None
      else p_existingSessionId p)"
    and "effects s' = effects s @ [ProviderCreated (handle prov)]"
    by (simp_all add: providerOptionsFor_resume)
qed

lemma resumeInv_cleanupProvider: "resumeInv s \<Longrightarrow> resumeInv (cleanupProvider k s)"
  unfolding resumeInv_def cleanupProvider_sessions by (auto split: if_splits)

lemma resumeInv_constructProvider:
  assumes "resumeInv s"
  shows "resumeInv (snd (constructProvider h p s))"
proof (cases "acpBinaryPath h")
  case (Inl err)
  with assms show ?thesis by (simp add: constructProvider_throws)
next
  case (Inr cmd)
  show ?thesis
    using assms
    unfolding resumeInv_def
    by (auto simp: constructProvider_ok [OF Inr] providerOptionsFor_resume
                   hasAppManagedApiKey_fingerprint split: if_splits)
qed

lemma resumeInv_getOrCreateProvider:
  assumes "resumeInv s"
  shows "resumeInv (snd (getOrCreateProvider h p s))"
proof (cases "providerSessions s (p_subChatId p)")
  case None
  with assms show ?thesis
    by (simp add: getOrCreateProvider_def resumeInv_constructProvider)
next
  case (Some e)
  with assms show ?thesis
    by (cases "sessionMatches p e")
       (simp_all add: getOrCreateProvider_reuse getOrCreateProvider_recreate
          resumeInv_constructProvider resumeInv_cleanupProvider)
qed

lemma getOrCreateProvider_resume:
  assumes r: "getOrCreateProvider h p s = (Inr prov, s')"
  shows "effects s' \<noteq> effects s \<longrightarrow>
           opt_existingSessionId (options prov) =
             (if hasAppManagedApiKey (p_authConfig p) \<or> \<not> truthy (p_existingSessionId p) then None
              else p_existingSessionId p)"
    and "resumeInv s \<and> hasAppManagedApiKey (p_authConfig p) \<longrightarrow>
           opt_existingSessionId (options prov) = None"
    and "providerSessions s (p_subChatId p) = None \<longrightarrow>
           opt_existingSessionId (options prov) =
             (if hasAppManagedApiKey (p_authConfig p) \<or> \<not> truthy (p_existingSessionId p) then None
              else p_existingSessionId p)"
proof -
  let ?v = "if hasAppManagedApiKey (p_authConfig p) \<or> \<not> truthy (p_existingSessionId p) then None
            else p_existingSessionId p"
  consider (none) "providerSessions s (p_subChatId p) = None"
    | (reuse) e where "providerSessions s (p_subChatId p) = Some e" "sessionMatches p e"
    | (recreate) e where "providerSessions s (p_subChatId p) = Some e" "\<not> sessionMatches p e"
    by (cases "providerSessions s (p_subChatId p)") auto
  then have "(effects s' \<noteq> effects s \<longrightarrow> opt_existingSessionId (options prov) = ?v)
      \<and> (resumeInv s \<and> hasAppManagedApiKey (p_authConfig p) \<longrightarrow>
           opt_existingSessionId (options prov) = None)
      \<and> (providerSessions s (p_subChatId p) = None \<longrightarrow> opt_existingSessionId (options prov) = ?v)"
  proof cases
    case none
    with r have "constructProvider h p s = (Inr prov, s')"
      by (simp add: getOrCreateProvider_def)
    from constructProvider_resume(1) [OF this] show ?thesis by simp
  next
    case reuse
    with r have eq: "prov = provider e" "s' = s"
      by (simp_all add: getOrCreateProvider_reuse)
    from reuse(2) have "authFingerprint e = getAuthFingerprint (p_authConfig p)"
      by (simp add: sessionMatches_def)
    with reuse(1) eq show ?thesis
      by (auto simp: resumeInv_def hasAppManagedApiKey_fingerprint)
  next
    case recreate
    with r have "constructProvider h p (cleanupProvider (p_subChatId p) s) = (Inr prov, s')"
      by (simp add: getOrCreateProvider_recreate)
    from constructProvider_resume(1) [OF this] recreate(1) show ?thesis by simp
  qed
  then show "effects s' \<noteq> effects s \<longrightarrow> opt_existingSessionId (options prov) = ?v"
    and "resumeInv s \<and> hasAppManagedApiKey (p_authConfig p) \<longrightarrow>
           opt_existingSessionId (options prov) = None"
    and "providerSessions s (p_subChatId p) = None \<longrightarrow> opt_existingSessionId (options prov) = ?v"
    by blast+
qed

lemma building_started:
  assumes "building w input s d = (Inr (prov, msgs), s', d')"
  obtains existing where
    "subChats d (in_subChatId input) = Some existing"
    "getOrCreateProvider (w_host w) (providerParamsFor input (mcpSnapshotFor w) existing)
       (if in_forceNewSession input then cleanupProvider (in_subChatId input) s else s)
     = (Inr prov, s')"
    "appendUserTurn (w_uuid w) input existing d = (msgs, d')"
proof (cases "subChats d (in_subChatId input)")
  case None
  with assms show ?thesis by (simp add: building_def)
next
  case (Some existing)
  obtain r s2 where g: "getOrCreateProvider (w_host w) (providerParamsFor input (mcpSnapshotFor w) existing)
       (if in_forceNewSession input then cleanupProvider (in_subChatId input) s else s) = (r, s2)"
    by (cases "getOrCreateProvider (w_host w) (providerParamsFor input (mcpSnapshotFor w) existing)
       (if in_forceNewSession input then cleanupProvider (in_subChatId input) s else s)")
  obtain m d1 where a: "appendUserTurn (w_uuid w) input existing d = (m, d1)"
    by (cases "appendUserTurn (w_uuid w) input existing d")
  from assms Some g a have "r = Inr prov" "s2 = s'" "m = msgs" "d1 = d'"
    by (auto simp: building_def Let_def split: sum.splits)
  with Some g a that show ?thesis by blast
qed

text \<open>
  C8 (as the code has it).  When Building acquires a provider, a forced fresh session yields
  a provider constructed without a resume identifier, and so does an API key that is not
  blank (not empty after trimming), also when the provider is a reused one.  A provider
  constructed by the call carries the requested session identifier exactly when no fresh
  session is forced, the key is absent or blank, and the identifier is truthy.
\<close>

theorem resume_id_only_without_force_and_key:
  assumes b: "building w input s d = (Inr (prov, msgs), s', d')"
      and ex: "subChats d (in_subChatId input) = Some existing"
  shows "(in_forceNewSession input \<longrightarrow> opt_existingSessionId (options prov) = None)
       \<and> (hasAppManagedApiKey (in_authConfig input) \<and> resumeInv s \<longrightarrow>
            opt_existingSessionId (options prov) = None)
       \<and> (effects s' \<noteq> effects s \<longrightarrow>
            opt_existingSessionId (options prov) =
              (if in_forceNewSession input \<or> hasAppManagedApiKey (in_authConfig input)
                  \<or> \<not> truthy (requestedSessionId input existing)
               then None else requestedSessionId input existing))
       \<and> (effects s' \<noteq> effects s \<and> opt_existingSessionId (options prov) \<noteq> None \<longrightarrow>
            \<not> in_forceNewSession input \<and> \<not> hasAppManagedApiKey (in_authConfig input))"
proof -
  let ?p = "providerParamsFor input (mcpSnapshotFor w) existing"
  let ?s1 = "if in_forceNewSession input then cleanupProvider (in_subChatId input) s else s"
  from b ex have g: "getOrCreateProvider (w_host w) ?p ?s1 = (Inr prov, s')"
    by (auto elim!: building_started)
  have pk: "p_subChatId ?p = in_subChatId input" "p_authConfig ?p = in_authConfig input"
    and pe: "p_existingSessionId ?p =
              (if in_forceNewSession input then None else requestedSessionId input existing)"
    by (simp_all add: providerParamsFor_def)
  note res = getOrCreateProvider_resume [OF g, unfolded pk pe]
  have force: "opt_existingSessionId (options prov) = None" if f: "in_forceNewSession input"
  proof -
    from f have "providerSessions ?s1 (in_subChatId input) = None"
      by (simp add: cleanupProvider_sessions)
    with res(3) f show ?thesis by (simp add: truthy_def)
  qed
  have key: "hasAppManagedApiKey (in_authConfig input) \<and> resumeInv s \<longrightarrow>
            opt_existingSessionId (options prov) = None"
  proof
    assume a: "hasAppManagedApiKey (in_authConfig input) \<and> resumeInv s"
    then have "resumeInv ?s1" by (simp add: resumeInv_cleanupProvider)
    with a res(2) show "opt_existingSessionId (options prov) = None" by simp
  qed
  have val: "opt_existingSessionId (options prov) =
              (if in_forceNewSession input \<or> hasAppManagedApiKey (in_authConfig input)
                  \<or> \<not> truthy (requestedSessionId input existing)
               then None else requestedSessionId input existing)"
    if d: "effects s' \<noteq> effects s"
  proof (cases "in_forceNewSession input")
    case True
    with force show ?thesis by simp
  next
    case False
    with d res(1) show ?thesis by simp
  qed
  from force key val show ?thesis by auto
qed

theorem resume_id_only_without_force_and_key_witness:
  "resumeIdOf (map_sum id fst (fst (building sampleWorld sampleInput initialRouter sampleDb)))
     = Some ''sess-1''
   \<and> resumeIdOf (map_sum id fst
        (fst (building sampleWorld (sampleInput\<lparr> in_forceNewSession := True \<rparr>) initialRouter sampleDb)))
     = None
   \<and> resumeIdOf (map_sum id fst
        (fst (building sampleWorld (sampleInput\<lparr> in_authConfig := Some \<lparr> apiKey = ''sk-1'' \<rparr> \<rparr>)
               initialRouter sampleDb)))
     = None"
proof -
  have ex: "subChats sampleDb (in_subChatId i) = Some []" if "in_subChatId i = ''c1''" for i
    using that by (simp add: sampleDb_def)
  have inv: "resumeInv initialRouter"
    by (simp add: resumeInv_def initialRouter_def)
  obtain p1 m1 s1 d1 where
    b1: "building sampleWorld sampleInput initialRouter sampleDb = (Inr (p1, m1), s1, d1)"
    by (simp add: building_eval)
  have e1: "effects s1 \<noteq> effects initialRouter"
    using b1 by (auto simp: building_eval)
  have 1: "opt_existingSessionId (options p1) = Some ''sess-1''"
    using resume_id_only_without_force_and_key [OF b1 ex, THEN conjunct2, THEN conjunct2, THEN conjunct1,
            THEN mp, OF _ e1]
    by (simp add: sampleInput_def hasAppManagedApiKey_def requestedSessionId_def truthy_def)
  obtain p2 m2 s2 d2 where
    b2: "building sampleWorld (sampleInput\<lparr> in_forceNewSession := True \<rparr>) initialRouter sampleDb
           = (Inr (p2, m2), s2, d2)"
    by (simp add: building_eval)
  have 2: "opt_existingSessionId (options p2) = None"
    using resume_id_only_without_force_and_key [OF b2 ex, THEN conjunct1]
    by (simp add: sampleInput_def)
  obtain p3 m3 s3 d3 where
    b3: "building sampleWorld (sampleInput\<lparr> in_authConfig := Some \<lparr> apiKey = ''sk-1'' \<rparr> \<rparr>)
           initialRouter sampleDb = (Inr (p3, m3), s3, d3)"
    by (simp add: building_eval)
  have 3: "opt_existingSessionId (options p3) = None"
    using resume_id_only_without_force_and_key [OF b3 ex, THEN conjunct2, THEN conjunct1] inv
    by (simp add: sampleInput_def hasAppManagedApiKey_def trim_eval)
  from 1 2 3 show ?thesis
    by (simp add: b1 b2 b3 resumeIdOf_def)
qed

text \<open>
  C8 as stated excludes a resume identifier for every non-empty key.  A key of one space
  is not empty, yet it is blank after trimming, and the identifier is passed.
\<close>

theorem resume_id_passed_with_blank_key:
  "apiKey \<lparr> apiKey = '' '' \<rparr> \<noteq> []
   \<and> resumeIdOf (fst (getOrCreateProvider sampleHost
         (sampleParams\<lparr> p_existingSessionId := Some ''sess-1'',
                        p_authConfig := Some \<lparr> apiKey = '' '' \<rparr> \<rparr>) initialRouter))
     = Some ''sess-1''"
  by (simp add: resumeIdOf_def getOrCreateProvider_def constructProvider_def initialRouter_def
        sampleHost_def sampleParams_def providerOptionsFor_def existingSessionIdForProvider_def
        hasAppManagedApiKey_def truthy_def Let_def trim_eval)

subsection \<open>Duplicate prompt\<close>

lemma textPartsOf_images [simp]:
  "textPartsOf (map (\<lambda>i. DataImagePart (base64Data i) (mediaType i) (filename i)) imgs) = []"
  by (induction imgs) simp_all

lemma fileContentsOf_images [simp]:
  "fileContentsOf (map (\<lambda>i. DataImagePart (base64Data i) (mediaType i) (filename i)) imgs) = []"
  by (induction imgs) simp_all

lemma extractPrompt_buildUserParts:
  "msg_parts m = Some (buildUserParts prompt images) \<Longrightarrow> extractPromptFromStoredMessage m = prompt"
  by (simp add: extractPromptFromStoredMessage_def buildUserParts_def split: option.splits)

lemma appendUserTurn_duplicate:
  "isDuplicatePrompt existing (in_prompt input) \<Longrightarrow> appendUserTurn uuid input existing d = (existing, d)"
  by (simp add: appendUserTurn_def)

lemma appendUserTurn_fresh:
  "\<not> isDuplicatePrompt existing (in_prompt input) \<Longrightarrow>
     appendUserTurn uuid input existing d =
       (existing @ [userMessageFor uuid input],
        d\<lparr> subChats := (subChats d)(in_subChatId input \<mapsto> existing @ [userMessageFor uuid input]),
           db_writes := db_writes d @ [(in_subChatId input, existing @ [userMessageFor uuid input])] \<rparr>)"
  by (simp add: appendUserTurn_def Let_def)

lemma isDuplicatePrompt_iff:
  "isDuplicatePrompt existing prompt \<longleftrightarrow>
     existing \<noteq> [] \<and> msg_role (last existing) = ''user'' \<and>
     extractPromptFromStoredMessage (last existing) = prompt"
  by (cases existing) (simp_all add: isDuplicatePrompt_def)

lemma isDuplicatePrompt_after_append:
  "in_prompt input' = in_prompt input \<Longrightarrow>
     isDuplicatePrompt (existing @ [userMessageFor uuid input]) (in_prompt input')"
  by (simp add: isDuplicatePrompt_iff userMessageFor_def extractPrompt_buildUserParts)

lemma appendUserTurn_row:
  assumes "subChats d (in_subChatId input) = Some existing"
  shows "subChats (snd (appendUserTurn uuid input existing d)) (in_subChatId input)
           = Some (fst (appendUserTurn uuid input existing d))"
  using assms
  by (cases "isDuplicatePrompt existing (in_prompt input)")
     (simp_all add: appendUserTurn_duplicate appendUserTurn_fresh)

lemma appendUserTurn_twice:
  assumes "in_prompt input' = in_prompt input"
  shows "appendUserTurn uuid' input' (fst (appendUserTurn uuid input existing d))
           (snd (appendUserTurn uuid input existing d))
         = appendUserTurn uuid input existing d"
proof (cases "isDuplicatePrompt existing (in_prompt input)")
  case True
  with assms show ?thesis by (simp add: appendUserTurn_duplicate)
next
  case False
  with assms show ?thesis
    by (simp add: appendUserTurn_fresh appendUserTurn_duplicate isDuplicatePrompt_after_append)
qed

lemma building_db:
  assumes "subChats d (in_subChatId input) = Some existing"
  shows "snd (snd (building w input s d)) = snd (appendUserTurn (w_uuid w) input existing d)"
    and "fst (building w input s d) = Inr (prov, msgs) \<Longrightarrow>
           msgs = fst (appendUserTurn (w_uuid w) input existing d)"
  using assms
  by (auto simp: building_def Let_def split: prod.splits sum.splits)

lemma building_db_fresh:
  assumes row: "subChats d (in_subChatId input) = Some existing"
      and nd: "\<not> (existing \<noteq> [] \<and> msg_role (last existing) = ''user'' \<and>
                 extractPromptFromStoredMessage (last existing) = in_prompt input)"
  shows "snd (snd (building w input s d)) =
           d\<lparr> subChats := (subChats d)(in_subChatId input \<mapsto> existing @ [userMessageFor (w_uuid w) input]),
              db_writes := db_writes d @
                [(in_subChatId input, existing @ [userMessageFor (w_uuid w) input])] \<rparr>"
    and "fst (building w input s d) = Inr (prov, msgs) \<Longrightarrow>
           msgs = existing @ [userMessageFor (w_uuid w) input]"
proof -
  from nd have n: "\<not> isDuplicatePrompt existing (in_prompt input)"
    by (simp add: isDuplicatePrompt_iff)
  show "snd (snd (building w input s d)) =
           d\<lparr> subChats := (subChats d)(in_subChatId input \<mapsto> existing @ [userMessageFor (w_uuid w) input]),
              db_writes := db_writes d @
                [(in_subChatId input, existing @ [userMessageFor (w_uuid w) input])] \<rparr>"
    by (simp add: building_db(1) [OF row] appendUserTurn_fresh [OF n])
  show "fst (building w input s d) = Inr (prov, msgs) \<Longrightarrow>
           msgs = existing @ [userMessageFor (w_uuid w) input]"
    using building_db(2) [OF row, of w s prov msgs] by (simp add: appendUserTurn_fresh [OF n])
qed

lemma building_row:
  assumes row: "subChats d (in_subChatId input) = Some existing"
  shows "subChats (snd (snd (building w input s d))) (in_subChatId input)
           = Some (fst (appendUserTurn (w_uuid w) input existing d))"
  unfolding building_db(1) [OF row] by (rule appendUserTurn_row [OF row])

lemma chat_db:
  "snd (snd (chat w input s d)) =
     (case fst (building w input (chatStart (in_subChatId input) (in_runId input) s) d) of
        Inl err \<Rightarrow> snd (snd (building w input (chatStart (in_subChatId input) (in_runId input) s) d))
      | Inr started \<Rightarrow>
          persistOnFinish w input (snd started)
            (snd (snd (building w input (chatStart (in_subChatId input) (in_runId input) s) d))))"
  by (simp add: chat_def chatBody_def Let_def split: prod.splits sum.splits)

lemma persistOnFinish_none: "w_response w = None \<Longrightarrow> persistOnFinish w input msgs d = d"
  by (simp add: persistOnFinish_def)

lemma persistOnFinish_row:
  "w_response w = Some reply \<Longrightarrow>
     subChats (persistOnFinish w input msgs d) (in_subChatId input) = Some (msgs @ [reply])"
  by (simp add: persistOnFinish_def)

lemma not_duplicate_after_reply:
  "msg_role reply \<noteq> ''user'' \<Longrightarrow> \<not> isDuplicatePrompt (msgs @ [reply]) prompt"
  by (simp add: isDuplicatePrompt_iff)

text \<open>
  C4 (as the code has it).  Let the row of the sub-chat hold \<open>existing\<close>.  If its last
  message is a user message whose extracted prompt text is the incoming prompt, Building
  leaves the database as it is (no write, no second user message) and streams with
  \<open>existing\<close>; otherwise it appends the user message and writes the row once.  Hence a
  second Building with the same prompt changes nothing when it runs on the transcript the
  first Building left, which is also the transcript a turn leaves when it failed in
  Building or its stream did not call \<^verbatim>\<open>onFinish\<close>.  A turn whose stream called
  \<^verbatim>\<open>onFinish\<close> has overwritten the row with its messages followed by the reply, and the
  next Building with the same prompt appends the prompt once more after the reply.
\<close>

theorem building_dedupes_last_user_turn:
  assumes row: "subChats d (in_subChatId input) = Some existing"
      and same: "in_subChatId input' = in_subChatId input \<and> in_prompt input' = in_prompt input"
  shows "(existing \<noteq> [] \<and> msg_role (last existing) = ''user'' \<and>
          extractPromptFromStoredMessage (last existing) = in_prompt input \<longrightarrow>
            snd (snd (building w input s d)) = d \<and>
            (\<forall>prov msgs. fst (building w input s d) = Inr (prov, msgs) \<longrightarrow> msgs = existing))
       \<and> (\<not> (existing \<noteq> [] \<and> msg_role (last existing) = ''user'' \<and>
             extractPromptFromStoredMessage (last existing) = in_prompt input) \<longrightarrow>
            snd (snd (building w input s d)) =
              d\<lparr> subChats := (subChats d)(in_subChatId input \<mapsto>
                     existing @ [userMessageFor (w_uuid w) input]),
                 db_writes := db_writes d @
                     [(in_subChatId input, existing @ [userMessageFor (w_uuid w) input])] \<rparr> \<and>
            (\<forall>prov msgs. fst (building w input s d) = Inr (prov, msgs) \<longrightarrow>
               msgs = existing @ [userMessageFor (w_uuid w) input]))
       \<and> snd (snd (building w' input' s' (snd (snd (building w input s d)))))
            = snd (snd (building w input s d))
       \<and> (w_response w = None \<or>
           fst (building w input (chatStart (in_subChatId input) (in_runId input) s) d) = Inl err \<longrightarrow>
            snd (snd (chat w input s d))
              = snd (snd (building w input (chatStart (in_subChatId input) (in_runId input) s) d)) \<and>
            snd (snd (building w' input' s' (snd (snd (chat w input s d)))))
              = snd (snd (chat w input s d)))
       \<and> (w_response w = Some reply \<and> msg_role reply \<noteq> ''user'' \<and>
           fst (building w input (chatStart (in_subChatId input) (in_runId input) s) d)
             = Inr (prov, msgs) \<longrightarrow>
            subChats (snd (snd (chat w input s d))) (in_subChatId input) = Some (msgs @ [reply]) \<and>
            subChats (snd (snd (building w' input' s' (snd (snd (chat w input s d))))))
              (in_subChatId input)
              = Some (msgs @ [reply, userMessageFor (w_uuid w') input']))"
proof -
  let ?k = "in_subChatId input"
  let ?s0 = "chatStart ?k (in_runId input) s"
  let ?dup = "existing \<noteq> [] \<and> msg_role (last existing) = ''user'' \<and>
          extractPromptFromStoredMessage (last existing) = in_prompt input"
  let ?um = "userMessageFor (w_uuid w) input"
  let ?a = "appendUserTurn (w_uuid w) input existing d"
  have bdb: "snd (snd (building w input t d)) = snd ?a" for t
    by (rule building_db(1) [OF row])
  have twice: "snd (snd (building w' input' s' (snd ?a))) = snd ?a"
  proof -
    have row': "subChats (snd ?a) (in_subChatId input') = Some (fst ?a)"
      using appendUserTurn_row [OF row, of "w_uuid w"] same by simp
    have "snd (snd (building w' input' s' (snd ?a)))
            = snd (appendUserTurn (w_uuid w') input' (fst ?a) (snd ?a))"
      by (rule building_db(1) [OF row'])
    also have "\<dots> = snd ?a" using same by (simp add: appendUserTurn_twice)
    finally show ?thesis .
  qed
  have 1: "?dup \<longrightarrow> snd (snd (building w input s d)) = d \<and>
            (\<forall>prov msgs. fst (building w input s d) = Inr (prov, msgs) \<longrightarrow> msgs = existing)"
  proof
    assume ?dup
    then have "isDuplicatePrompt existing (in_prompt input)" by (simp add: isDuplicatePrompt_iff)
    then have a: "?a = (existing, d)" by (rule appendUserTurn_duplicate)
    show "snd (snd (building w input s d)) = d \<and>
            (\<forall>prov msgs. fst (building w input s d) = Inr (prov, msgs) \<longrightarrow> msgs = existing)"
      using building_db(2) [OF row, of w s] by (simp add: bdb a)
  qed
  have 2: "\<not> ?dup \<longrightarrow>
            snd (snd (building w input s d)) =
              d\<lparr> subChats := (subChats d)(?k \<mapsto> existing @ [?um]),
                 db_writes := db_writes d @ [(?k, existing @ [?um])] \<rparr> \<and>
            (\<forall>prov msgs. fst (building w input s d) = Inr (prov, msgs) \<longrightarrow>
               msgs = existing @ [?um])"
    using building_db_fresh [OF row, of w s] by blast
  have 3: "snd (snd (building w' input' s' (snd (snd (building w input s d)))))
            = snd (snd (building w input s d))"
    using twice by (simp add: bdb)
  have 4: "w_response w = None \<or> fst (building w input ?s0 d) = Inl err \<longrightarrow>
            snd (snd (chat w input s d)) = snd (snd (building w input ?s0 d)) \<and>
            snd (snd (building w' input' s' (snd (snd (chat w input s d)))))
              = snd (snd (chat w input s d))"
  proof
    assume h: "w_response w = None \<or> fst (building w input ?s0 d) = Inl err"
    then have c: "snd (snd (chat w input s d)) = snd (snd (building w input ?s0 d))"
      by (auto simp: chat_db persistOnFinish_none split: sum.splits)
    show "snd (snd (chat w input s d)) = snd (snd (building w input ?s0 d)) \<and>
            snd (snd (building w' input' s' (snd (snd (chat w input s d)))))
              = snd (snd (chat w input s d))"
      using twice by (simp add: c bdb)
  qed
  have 5: "w_response w = Some reply \<and> msg_role reply \<noteq> ''user'' \<and>
           fst (building w input ?s0 d) = Inr (prov, msgs) \<longrightarrow>
            subChats (snd (snd (chat w input s d))) ?k = Some (msgs @ [reply]) \<and>
            subChats (snd (snd (building w' input' s' (snd (snd (chat w input s d)))))) ?k
              = Some (msgs @ [reply, userMessageFor (w_uuid w') input'])"
  proof
    assume h: "w_response w = Some reply \<and> msg_role reply \<noteq> ''user'' \<and>
           fst (building w input ?s0 d) = Inr (prov, msgs)"
    let ?d2 = "snd (snd (chat w input s d))"
    from h have d2: "?d2 = persistOnFinish w input msgs (snd (snd (building w input ?s0 d)))"
      by (simp add: chat_db)
    from h have r2: "subChats ?d2 ?k = Some (msgs @ [reply])"
      by (simp add: d2 persistOnFinish_row)
    then have r2': "subChats ?d2 (in_subChatId input') = Some (msgs @ [reply])"
      using same by simp
    from h have nd: "\<not> isDuplicatePrompt (msgs @ [reply]) (in_prompt input')"
      by (simp add: not_duplicate_after_reply)
    have "subChats (snd (snd (building w' input' s' ?d2))) (in_subChatId input')
            = Some (fst (appendUserTurn (w_uuid w') input' (msgs @ [reply]) ?d2))"
      by (rule building_row [OF r2'])
    also have "\<dots> = Some (msgs @ [reply, userMessageFor (w_uuid w') input'])"
      by (simp add: appendUserTurn_fresh [OF nd])
    finally show "subChats ?d2 ?k = Some (msgs @ [reply]) \<and>
            subChats (snd (snd (building w' input' s' ?d2))) ?k
              = Some (msgs @ [reply, userMessageFor (w_uuid w') input'])"
      using r2 same by simp
  qed
  from 1 2 3 4 5 show ?thesis by (intro conjI)
qed

theorem building_dedupes_last_user_turn_witness:
  "snd (snd (building sampleWorld sampleInput initialRouter
               \<lparr> subChats = [''c1'' \<mapsto> [userMessageFor ''m0'' sampleInput]], db_writes = [] \<rparr>))
     = \<lparr> subChats = [''c1'' \<mapsto> [userMessageFor ''m0'' sampleInput]], db_writes = [] \<rparr>
   \<and> subChats (snd (snd (building sampleWorld sampleInput initialRouter sampleDb))) ''c1''
     = Some [userMessageFor ''m1'' sampleInput]
   \<and> snd (snd (building (sampleWorld\<lparr> w_uuid := ''m2'' \<rparr>) sampleInput initialRouter
                  (snd (snd (building sampleWorld sampleInput initialRouter sampleDb)))))
     = snd (snd (building sampleWorld sampleInput initialRouter sampleDb))
   \<and> snd (snd (building (sampleWorld\<lparr> w_uuid := ''m2'' \<rparr>) sampleInput initialRouter
                  (snd (snd (chat (sampleWorld\<lparr> w_response := None \<rparr>) sampleInput
                                  initialRouter sampleDb)))))
     = snd (snd (chat (sampleWorld\<lparr> w_response := None \<rparr>) sampleInput initialRouter sampleDb))
   \<and> subChats (snd (snd (building (sampleWorld\<lparr> w_uuid := ''m2'' \<rparr>) sampleInput initialRouter
                  (snd (snd (chat sampleWorld sampleInput initialRouter sampleDb)))))) ''c1''
     = Some [userMessageFor ''m1'' sampleInput, sampleReply, userMessageFor ''m2'' sampleInput]"
proof -
  let ?w2 = "sampleWorld\<lparr> w_uuid := ''m2'' \<rparr>"
  let ?dd = "\<lparr> subChats = [''c1'' \<mapsto> [userMessageFor ''m0'' sampleInput]], db_writes = [] \<rparr>"
  have k: "in_subChatId sampleInput = ''c1''" by (simp add: sampleInput_def)
  have same: "in_subChatId sampleInput = in_subChatId sampleInput \<and>
              in_prompt sampleInput = in_prompt sampleInput" by simp
  have row: "subChats sampleDb (in_subChatId sampleInput) = Some []"
    by (simp add: sampleDb_def k)
  have rowd: "subChats ?dd (in_subChatId sampleInput) = Some [userMessageFor ''m0'' sampleInput]"
    by (simp add: k)
  have dup: "[userMessageFor ''m0'' sampleInput] \<noteq> [] \<and>
             msg_role (last [userMessageFor ''m0'' sampleInput]) = ''user'' \<and>
             extractPromptFromStoredMessage (last [userMessageFor ''m0'' sampleInput])
               = in_prompt sampleInput"
    by (simp add: userMessageFor_def extractPrompt_buildUserParts)
  have nd: "\<not> ([] \<noteq> [] \<and> msg_role (last []) = ''user'' \<and>
                extractPromptFromStoredMessage (last []) = in_prompt sampleInput)"
    by simp
  have u1: "w_uuid sampleWorld = ''m1''" and u2: "w_uuid ?w2 = ''m2''"
    by (simp_all add: sampleWorld_def)
  note td = building_dedupes_last_user_turn [OF rowd same]
  note te = building_dedupes_last_user_turn [OF row same]
  have 1: "snd (snd (building sampleWorld sampleInput initialRouter ?dd)) = ?dd"
    using td [where w = sampleWorld and s = initialRouter, THEN conjunct1, THEN mp, OF dup]
    by simp
  have 2: "subChats (snd (snd (building sampleWorld sampleInput initialRouter sampleDb))) ''c1''
             = Some [userMessageFor ''m1'' sampleInput]"
    using te [where w = sampleWorld and s = initialRouter, THEN conjunct2, THEN conjunct1, THEN mp, OF nd]
    by (simp add: k u1)
  have 3: "snd (snd (building ?w2 sampleInput initialRouter
                  (snd (snd (building sampleWorld sampleInput initialRouter sampleDb)))))
             = snd (snd (building sampleWorld sampleInput initialRouter sampleDb))"
    by (rule te [THEN conjunct2, THEN conjunct2, THEN conjunct1])
  let ?wn = "sampleWorld\<lparr> w_response := None \<rparr>"
  have rn: "w_response ?wn = None \<or>
            fst (building ?wn sampleInput
                   (chatStart (in_subChatId sampleInput) (in_runId sampleInput) initialRouter) sampleDb)
              = Inl (newError [])"
    by simp
  have 4: "snd (snd (building ?w2 sampleInput initialRouter
                  (snd (snd (chat ?wn sampleInput initialRouter sampleDb)))))
             = snd (snd (chat ?wn sampleInput initialRouter sampleDb))"
    by (rule te [where w = ?wn and s = initialRouter and w' = ?w2 and s' = initialRouter
                   and err = "newError []",
                 THEN conjunct2, THEN conjunct2, THEN conjunct2, THEN conjunct1, THEN mp, OF rn,
                 THEN conjunct2])
  obtain prov where b: "fst (building sampleWorld sampleInput
                   (chatStart (in_subChatId sampleInput) (in_runId sampleInput) initialRouter) sampleDb)
              = Inr (prov, [userMessageFor ''m1'' sampleInput])"
    by (auto simp: building_eval chatStart_def registerRun_def supersedeExisting_def userMessageFor_def)
  have r: "w_response sampleWorld = Some sampleReply \<and> msg_role sampleReply \<noteq> ''user''"
    by (simp add: sampleWorld_def sampleReply_def)
  have 5: "subChats (snd (snd (building ?w2 sampleInput initialRouter
                  (snd (snd (chat sampleWorld sampleInput initialRouter sampleDb)))))) ''c1''
     = Some [userMessageFor ''m1'' sampleInput, sampleReply, userMessageFor ''m2'' sampleInput]"
    using te [where w = sampleWorld and s = initialRouter and w' = ?w2 and s' = initialRouter
                and reply = sampleReply and prov = prov and msgs = "[userMessageFor ''m1'' sampleInput]",
              THEN conjunct2, THEN conjunct2, THEN conjunct2, THEN conjunct2, THEN mp,
              OF conjI [OF conjunct1 [OF r] conjI [OF conjunct2 [OF r] b]]]
    by (simp add: k u2)
  from 1 2 3 4 5 show ?thesis by (intro conjI)
qed

text \<open>
  C4 as stated concludes that two calls of the turn executor in a row append one user
  turn.  A turn that completes persists the assistant reply after the user turn, so for
  the next call the prompt is no duplicate of the last message and is appended again.
\<close>

theorem second_turn_appends_the_prompt_again:
  "map_option (map msg_role)
     (subChats (snd (snd (chat (sampleWorld\<lparr> w_uuid := ''m2'' \<rparr>) (sampleInput\<lparr> in_runId := ''runB'' \<rparr>)
                            (fst (snd (chat sampleWorld sampleInput initialRouter sampleDb)))
                            (snd (snd (chat sampleWorld sampleInput initialRouter sampleDb))))))
        ''c1'')
     = Some [''user'', ''assistant'', ''user'', ''assistant'']"
  by (simp add: chat_eval building_eval userMessageFor_def buildUserParts_def
        extractPromptFromStoredMessage_def sampleReply_def)

subsection \<open>Emitting chunks\<close>

lemma safeEmit_active:
  "isActive em \<Longrightarrow> safeEmit c em = em\<lparr> emitted := emitted em @ [c] \<rparr>"
  by (simp add: safeEmit_def)

lemma readLoop_active:
  "isActive em \<Longrightarrow> readLoop vs em = em\<lparr> emitted := emitted em @ map forwardChunk vs \<rparr>"
proof (induction vs arbitrary: em)
  case Nil
  then show ?case by simp
next
  case (Cons v vs)
  then show ?case by (simp add: safeEmit_active)
qed

lemma readLoop_inactive: "\<not> isActive em \<Longrightarrow> readLoop vs em = em"
  by (induction vs arbitrary: em) (simp_all add: safeEmit_def)

lemma catchHandler_active:
  "isActive em \<Longrightarrow>
     catchHandler err em =
       em\<lparr> emitted := emitted em @ [caughtChunk err, newChunk ''finish'' None],
           isActive := False, completed := True \<rparr>"
  by (simp add: catchHandler_def safeEmit_def safeComplete_def)

lemma isFinish_forwardChunk: "isFinish (forwardChunk v) = isFinish v"
  by (auto simp: isFinish_def forwardChunk_def Let_def)

lemma filter_finish_forward:
  "filter isFinish (map forwardChunk vs) = map forwardChunk (filter isFinish vs)"
  by (induction vs) (simp_all add: isFinish_forwardChunk)

lemma caughtChunk_type:
  "obj_type (caughtChunk err) =
     Some (if isCodexAuthError (extractCodexError err) then ''auth-error'' else ''error'')"
  "obj_errorText (caughtChunk err) = Some (message (extractCodexError err))"
  by (simp_all add: caughtChunk_def newChunk_def Let_def)

lemma forwardChunk_other: "obj_type v \<noteq> Some ''error'' \<Longrightarrow> forwardChunk v = v"
  by (simp add: forwardChunk_def)

lemma forwardChunk_error:
  "obj_type v = Some ''error'' \<Longrightarrow>
     forwardChunk v =
       v\<lparr> obj_type := Some (if isCodexAuthError (extractCodexError v) then ''auth-error'' else ''error''),
          obj_errorText := Some (message (extractCodexError v)) \<rparr>"
  by (simp add: forwardChunk_def Let_def)

lemma startsWith_iff: "startsWith s p \<longleftrightarrow> (\<exists>post. s = p @ post)"
  by (induction s p rule: startsWith.induct) auto

lemma includesStr_iff: "includesStr s h \<longleftrightarrow> (\<exists>pre post. s = pre @ h @ post)"
proof (induction s)
  case Nil
  then show ?case by auto
next
  case (Cons c cs)
  show ?case
  proof
    assume "includesStr (c # cs) h"
    then consider "startsWith (c # cs) h" | "includesStr cs h" by auto
    then show "\<exists>pre post. c # cs = pre @ h @ post"
    proof cases
      case 1
      then obtain post where "c # cs = h @ post" by (auto simp: startsWith_iff)
      then have "c # cs = [] @ h @ post" by simp
      then show ?thesis by blast
    next
      case 2
      then obtain pre post where "cs = pre @ h @ post" using Cons.IH by blast
      then have "c # cs = (c # pre) @ h @ post" by simp
      then show ?thesis by blast
    qed
  next
    assume "\<exists>pre post. c # cs = pre @ h @ post"
    then obtain pre post where e: "c # cs = pre @ h @ post" by blast
    show "includesStr (c # cs) h"
    proof (cases pre)
      case Nil
      with e have "startsWith (c # cs) h" by (auto simp: startsWith_iff)
      then show ?thesis by simp
    next
      case (Cons p ps)
      with e have "cs = ps @ h @ post" by simp
      then have "includesStr cs h" using Cons.IH by blast
      then show ?thesis by simp
    qed
  qed
qed

lemma searchableText_alt:
  "searchableText e = toLowerCase ((case code e of None \<Rightarrow> [] | Some c \<Rightarrow> c) @ '' '' @ message e)"
  by (cases "code e") (auto simp: searchableText_def truthy_def)

lemma isCodexAuthError_spec: "isCodexAuthError e \<longleftrightarrow> authHintMatch_spec e"
  by (simp add: isCodexAuthError_def authHintMatch_spec_def list_ex_iff includesStr_iff
        searchableText_alt)

lemma sample_auth_401: "isCodexAuthError \<lparr> message = ''HTTP 401 Unauthorized'', code = None \<rparr>"
  by (simp add: classify_eval)

lemma sample_generic_boom: "\<not> isCodexAuthError \<lparr> message = ''boom'', code = None \<rparr>"
  by (simp add: classify_eval)

lemma sample_not_found_generic:
  "\<not> isCodexAuthError \<lparr> message = ''Sub-chat not found'', code = None \<rparr>"
  by (simp add: classify_eval)

subsection \<open>Classifying and forwarding stream chunks\<close>

text \<open>
  C7 (as the code has it).  An error is classified as an authentication error exactly when a
  hint of the fixed list is a substring of its lower-cased code and message.  The read
  loop forwards every chunk of the stream, in order, to an active subscriber and reads
  on after an authentication error: a chunk that is not an \<open>error\<close> chunk is forwarded
  unchanged; an \<open>error\<close> chunk is forwarded with the normalized message as its text,
  re-typed \<open>auth-error\<close> when it is classified so.
\<close>

theorem stream_chunks_classified_and_forwarded:
  "(isCodexAuthError e \<longleftrightarrow> authHintMatch_spec e)
   \<and> (isActive em \<longrightarrow> emitted (readLoop vs em) = emitted em @ map forwardChunk vs)
   \<and> (obj_type v \<noteq> Some ''error'' \<longrightarrow> forwardChunk v = v)
   \<and> (obj_type v = Some ''error'' \<longrightarrow>
        forwardChunk v =
          v\<lparr> obj_type := Some (if isCodexAuthError (extractCodexError v) then ''auth-error''
                                else ''error''),
             obj_errorText := Some (message (extractCodexError v)) \<rparr>)"
  by (simp add: isCodexAuthError_spec readLoop_active forwardChunk_other forwardChunk_error)

theorem stream_chunks_classified_and_forwarded_witness:
  "emitted (readLoop [newChunk ''error'' (Some ''HTTP 401 Unauthorized''),
                      newChunk ''error'' (Some ''boom''),
                      newChunk ''text-delta'' None] freshEmitter)
     = [newChunk ''auth-error'' (Some ''HTTP 401 Unauthorized''),
        newChunk ''error'' (Some ''boom''),
        newChunk ''text-delta'' None]"
proof -
  have act: "isActive freshEmitter" by (simp add: freshEmitter_def)
  have x: "extractCodexError (newChunk ''error'' (Some m)) =
             \<lparr> message = (if m = [] then ''[object Object]'' else m), code = None \<rparr>" for m
    by (simp add: extractCodexError_def newChunk_def orElse_def truthy_def)
  note t = stream_chunks_classified_and_forwarded
  have 1: "forwardChunk (newChunk ''error'' (Some ''HTTP 401 Unauthorized''))
             = newChunk ''auth-error'' (Some ''HTTP 401 Unauthorized'')"
    using t [where v = "newChunk ''error'' (Some ''HTTP 401 Unauthorized'')",
             THEN conjunct2, THEN conjunct2, THEN conjunct2] sample_auth_401
    by (simp add: x) (simp add: newChunk_def)
  have 2: "forwardChunk (newChunk ''error'' (Some ''boom'')) = newChunk ''error'' (Some ''boom'')"
    using t [where v = "newChunk ''error'' (Some ''boom'')",
             THEN conjunct2, THEN conjunct2, THEN conjunct2] sample_generic_boom
    by (simp add: x) (simp add: newChunk_def)
  have 3: "forwardChunk (newChunk ''text-delta'' None) = newChunk ''text-delta'' None"
    using t [where v = "newChunk ''text-delta'' None", THEN conjunct2, THEN conjunct2, THEN conjunct1]
    by (simp add: newChunk_def)
  have r: "emitted (readLoop vs freshEmitter) = emitted freshEmitter @ map forwardChunk vs" for vs
    by (rule t [where em = freshEmitter, THEN conjunct2, THEN conjunct1, THEN mp, OF act])
  have "emitted freshEmitter = []" by (simp add: freshEmitter_def)
  then show ?thesis unfolding r by (simp add: 1 2 3)
qed

text \<open>
  C7 as stated has the executor stop reading at a chunk classified as an authentication
  error.  The chunks after it are forwarded all the same.
\<close>

theorem chunks_after_auth_error_forwarded:
  "map obj_type (emitted (fst (chat (sampleWorld\<lparr> w_stream :=
            [newChunk ''error'' (Some ''HTTP 401 Unauthorized''), newChunk ''text-delta'' None,
             newChunk ''finish'' None] \<rparr>) sampleInput initialRouter sampleDb)))
     = [Some ''auth-error'', Some ''text-delta'', Some ''finish'']"
  by (simp add: chat_eval building_eval classify_eval)

subsection \<open>Outcomes of a turn\<close>

lemma building_mcp_failure:
  "building (w\<lparr> w_mcp := Inl e \<rparr>) input s d = building (w\<lparr> w_mcp := Inr emptyMcpSnapshot \<rparr>) input s d"
  by (simp add: building_def mcpSnapshotFor_def Let_def split: option.splits)

lemma constructProvider_failure:
  "fst (constructProvider h p s) = Inl err \<Longrightarrow> acpBinaryPath h = Inl err"
  by (cases "acpBinaryPath h") (simp_all add: constructProvider_def Let_def)

lemma getOrCreateProvider_failure:
  "fst (getOrCreateProvider h p s) = Inl err \<Longrightarrow> acpBinaryPath h = Inl err"
  by (auto simp: getOrCreateProvider_def split: option.splits if_splits
           dest: constructProvider_failure)

lemma building_failure:
  assumes "fst (building w input s d) = Inl err"
  shows "(subChats d (in_subChatId input) = None \<and> err = newError ''Sub-chat not found'')
         \<or> acpBinaryPath (w_host w) = Inl err"
proof (cases "subChats d (in_subChatId input)")
  case None
  with assms show ?thesis by (simp add: building_def)
next
  case (Some existing)
  let ?g = "getOrCreateProvider (w_host w) (providerParamsFor input (mcpSnapshotFor w) existing)
       (if in_forceNewSession input then cleanupProvider (in_subChatId input) s else s)"
  from assms Some have "fst ?g = Inl err"
    by (auto simp: building_def Let_def split: prod.splits sum.splits)
  then show ?thesis by (auto dest: getOrCreateProvider_failure)
qed

lemma chat_emitter:
  "fst (chat w input s d) =
     (case fst (building w input (chatStart (in_subChatId input) (in_runId input) s) d) of
        Inl err \<Rightarrow> catchHandler err freshEmitter
      | Inr started \<Rightarrow>
          (case w_streamEnd w of
             None \<Rightarrow> safeComplete (readLoop (w_stream w) freshEmitter)
           | Some err \<Rightarrow> catchHandler err (readLoop (w_stream w) freshEmitter)))"
  by (simp add: chat_def chatBody_def Let_def split: prod.splits sum.splits)

text \<open>The router after a turn: completing the subscription has run the teardown, so the
  run's own controller is aborted and its entry removed before the \<^verbatim>\<open>finally\<close> block.\<close>

lemma readLoop_isActive: "isActive (readLoop vs em) = isActive em"
  by (induction vs arbitrary: em) (simp_all add: safeEmit_def)

lemma chat_router:
  "fst (snd (chat w input s d)) =
     releaseRun (in_subChatId input) (in_runId input)
       (chatTeardown (in_subChatId input) (in_runId input)
          (nextRef (supersedeExisting (in_subChatId input) s))
          (fst (snd (building w input (chatStart (in_subChatId input) (in_runId input) s) d))))"
  by (simp add: chat_def chatBody_def afterComplete_def readLoop_isActive freshEmitter_def Let_def
           split: prod.splits sum.splits)

lemma chat_router_sample:
  "effects (fst (snd (chat sampleWorld sampleInput initialRouter sampleDb)))
     = [ProviderCreated 1, ControllerAbort 0]
   \<and> activeStreams (fst (snd (chat sampleWorld sampleInput initialRouter sampleDb))) ''c1'' = None"
  by (simp add: chat_eval building_eval)

text \<open>
  C5 (as the code has it).  For a run that nothing cancels: when Building fails, which only
  the sub-chat lookup and the provider construction can cause, the output is exactly one
  \<open>error\<close> or \<open>auth-error\<close> chunk followed by one \<open>finish\<close> chunk; a failure to resolve the
  MCP snapshot is caught and the run goes on as with the empty snapshot.  When the stream
  ends normally the output is the stream's chunks, each passed through \<open>forwardChunk\<close>,
  with no \<open>finish\<close> chunk added, so it has as many \<open>finish\<close> chunks as the stream; when
  starting or reading the stream throws, one \<open>error\<close> or \<open>auth-error\<close> chunk and one
  \<open>finish\<close> chunk follow the chunks already forwarded.  In every case the subscription is
  completed.
\<close>

theorem turn_outcomes:
  "(fst (building w input (chatStart (in_subChatId input) (in_runId input) s) d) = Inl err \<longrightarrow>
      fst (chat w input s d) =
        \<lparr> isActive = False, emitted = [caughtChunk err, newChunk ''finish'' None], completed = True \<rparr> \<and>
      ((subChats d (in_subChatId input) = None \<and> err = newError ''Sub-chat not found'')
       \<or> acpBinaryPath (w_host w) = Inl err))
   \<and> (fst (building w input (chatStart (in_subChatId input) (in_runId input) s) d) = Inr started \<and>
       w_streamEnd w = None \<longrightarrow>
      fst (chat w input s d) =
        \<lparr> isActive = False, emitted = map forwardChunk (w_stream w), completed = True \<rparr> \<and>
      length (filter isFinish (emitted (fst (chat w input s d))))
        = length (filter isFinish (w_stream w)))
   \<and> (fst (building w input (chatStart (in_subChatId input) (in_runId input) s) d) = Inr started \<and>
       w_streamEnd w = Some err \<longrightarrow>
      fst (chat w input s d) =
        \<lparr> isActive = False,
          emitted = map forwardChunk (w_stream w) @ [caughtChunk err, newChunk ''finish'' None],
          completed = True \<rparr> \<and>
      length (filter isFinish (emitted (fst (chat w input s d))))
        = Suc (length (filter isFinish (w_stream w))))
   \<and> obj_type (caughtChunk err) =
        Some (if isCodexAuthError (extractCodexError err) then ''auth-error'' else ''error'')
   \<and> building (w\<lparr> w_mcp := Inl e \<rparr>) input s d
        = building (w\<lparr> w_mcp := Inr emptyMcpSnapshot \<rparr>) input s d"
proof -
  let ?b = "fst (building w input (chatStart (in_subChatId input) (in_runId input) s) d)"
  have act: "isActive freshEmitter" by (simp add: freshEmitter_def)
  have rl: "readLoop (w_stream w) freshEmitter
              = \<lparr> isActive = True, emitted = map forwardChunk (w_stream w), completed = False \<rparr>"
    by (simp add: readLoop_active freshEmitter_def)
  have nf: "\<not> isFinish (caughtChunk err)" "isFinish (newChunk ''finish'' None)"
    by (simp_all add: isFinish_def caughtChunk_type newChunk_def)
  have 1: "?b = Inl err \<longrightarrow>
      fst (chat w input s d) =
        \<lparr> isActive = False, emitted = [caughtChunk err, newChunk ''finish'' None], completed = True \<rparr> \<and>
      ((subChats d (in_subChatId input) = None \<and> err = newError ''Sub-chat not found'')
       \<or> acpBinaryPath (w_host w) = Inl err)"
    using building_failure [of w input "chatStart (in_subChatId input) (in_runId input) s" d err]
    by (simp add: chat_emitter catchHandler_active freshEmitter_def)
  have 2: "?b = Inr started \<and> w_streamEnd w = None \<longrightarrow>
      fst (chat w input s d) =
        \<lparr> isActive = False, emitted = map forwardChunk (w_stream w), completed = True \<rparr> \<and>
      length (filter isFinish (emitted (fst (chat w input s d))))
        = length (filter isFinish (w_stream w))"
    by (simp add: chat_emitter rl safeComplete_def filter_finish_forward)
  have 3: "?b = Inr started \<and> w_streamEnd w = Some err \<longrightarrow>
      fst (chat w input s d) =
        \<lparr> isActive = False,
          emitted = map forwardChunk (w_stream w) @ [caughtChunk err, newChunk ''finish'' None],
          completed = True \<rparr> \<and>
      length (filter isFinish (emitted (fst (chat w input s d))))
        = Suc (length (filter isFinish (w_stream w)))"
    by (simp add: chat_emitter rl catchHandler_active filter_finish_forward nf)
  have 4: "obj_type (caughtChunk err) =
        Some (if isCodexAuthError (extractCodexError err) then ''auth-error'' else ''error'')"
    by (rule caughtChunk_type)
  have 5: "building (w\<lparr> w_mcp := Inl e \<rparr>) input s d
        = building (w\<lparr> w_mcp := Inr emptyMcpSnapshot \<rparr>) input s d"
    by (rule building_mcp_failure)
  from 1 2 3 4 5 show ?thesis by (intro conjI)
qed

theorem turn_outcomes_witness:
  "emitted (fst (chat sampleWorld sampleInput initialRouter \<lparr> subChats = Map.empty, db_writes = [] \<rparr>))
     = [newChunk ''error'' (Some ''Sub-chat not found''), newChunk ''finish'' None]
   \<and> emitted (fst (chat sampleWorld sampleInput initialRouter sampleDb))
     = [newChunk ''start'' None, newChunk ''text-delta'' None, newChunk ''finish'' None]
   \<and> completed (fst (chat sampleWorld sampleInput initialRouter sampleDb))
   \<and> emitted (fst (chat (sampleWorld\<lparr> w_stream := [newChunk ''start'' None],
                                       w_streamEnd := Some (newError ''HTTP 401 Unauthorized'') \<rparr>)
                      sampleInput initialRouter sampleDb))
     = [newChunk ''start'' None, newChunk ''auth-error'' (Some ''HTTP 401 Unauthorized''),
        newChunk ''finish'' None]"
proof -
  note t = turn_outcomes
  have fw: "forwardChunk (newChunk ''start'' None) = newChunk ''start'' None"
    "forwardChunk (newChunk ''text-delta'' None) = newChunk ''text-delta'' None"
    "forwardChunk (newChunk ''finish'' None) = newChunk ''finish'' None"
    by (simp_all add: forwardChunk_def newChunk_def)
  have b0: "fst (building sampleWorld sampleInput
                   (chatStart (in_subChatId sampleInput) (in_runId sampleInput) initialRouter)
                   \<lparr> subChats = Map.empty, db_writes = [] \<rparr>) = Inl (newError ''Sub-chat not found'')"
    by (simp add: building_def)
  have c0: "caughtChunk (newError ''Sub-chat not found'') = newChunk ''error'' (Some ''Sub-chat not found'')"
    using sample_not_found_generic
    by (simp add: caughtChunk_def extractCodexError_def newError_def orElse_def truthy_def)
  have 1: "emitted (fst (chat sampleWorld sampleInput initialRouter \<lparr> subChats = Map.empty, db_writes = [] \<rparr>))
     = [newChunk ''error'' (Some ''Sub-chat not found''), newChunk ''finish'' None]"
    using t [where w = sampleWorld and input = sampleInput and s = initialRouter
               and d = "\<lparr> subChats = Map.empty, db_writes = [] \<rparr>"
               and err = "newError ''Sub-chat not found''",
             THEN conjunct1, THEN mp, OF b0]
    by (simp add: c0)
  obtain st1 where b1: "fst (building sampleWorld sampleInput
                   (chatStart (in_subChatId sampleInput) (in_runId sampleInput) initialRouter) sampleDb)
               = Inr st1"
    by (auto simp: building_eval chatStart_def registerRun_def supersedeExisting_def)
  have e1: "w_streamEnd sampleWorld = None" by (simp add: sampleWorld_def)
  have 2: "emitted (fst (chat sampleWorld sampleInput initialRouter sampleDb))
     = [newChunk ''start'' None, newChunk ''text-delta'' None, newChunk ''finish'' None]
    \<and> completed (fst (chat sampleWorld sampleInput initialRouter sampleDb))"
    using t [where w = sampleWorld and input = sampleInput and s = initialRouter and d = sampleDb
               and started = st1,
             THEN conjunct2, THEN conjunct1, THEN mp, OF conjI [OF b1 e1]]
    by (simp add: sampleWorld_def fw)
  let ?w = "sampleWorld\<lparr> w_stream := [newChunk ''start'' None],
                         w_streamEnd := Some (newError ''HTTP 401 Unauthorized'') \<rparr>"
  obtain st2 where b2: "fst (building ?w sampleInput
                   (chatStart (in_subChatId sampleInput) (in_runId sampleInput) initialRouter) sampleDb)
               = Inr st2"
    by (auto simp: building_eval chatStart_def registerRun_def supersedeExisting_def)
  have e2: "w_streamEnd ?w = Some (newError ''HTTP 401 Unauthorized'')" by simp
  have c2: "caughtChunk (newError ''HTTP 401 Unauthorized'')
              = newChunk ''auth-error'' (Some ''HTTP 401 Unauthorized'')"
    using sample_auth_401
    by (simp add: caughtChunk_def extractCodexError_def newError_def orElse_def truthy_def)
  have 3: "emitted (fst (chat ?w sampleInput initialRouter sampleDb))
     = [newChunk ''start'' None, newChunk ''auth-error'' (Some ''HTTP 401 Unauthorized''),
        newChunk ''finish'' None]"
    using t [where w = ?w and input = sampleInput and s = initialRouter and d = sampleDb
               and started = st2 and err = "newError ''HTTP 401 Unauthorized''",
             THEN conjunct2, THEN conjunct2, THEN conjunct1, THEN mp, OF conjI [OF b2 e2]]
    by (simp add: fw c2)
  from 1 2 3 show ?thesis by simp
qed

text \<open>
  C5 as stated fails twice.  A failure of tool resolution does not abort the turn: the
  stream is forwarded as usual.  And a stream that ends after a generic error chunk,
  without a \<open>finish\<close> chunk of its own, leaves the output without one.
\<close>

theorem tool_failure_continues_and_no_finish_added:
  "emitted (fst (chat (sampleWorld\<lparr> w_mcp := Inl (newError ''mcp list failed'') \<rparr>)
                   sampleInput initialRouter sampleDb))
     = [newChunk ''start'' None, newChunk ''text-delta'' None, newChunk ''finish'' None]
   \<and> emitted (fst (chat (sampleWorld\<lparr> w_stream := [newChunk ''error'' (Some ''boom'')] \<rparr>)
                   sampleInput initialRouter sampleDb))
     = [newChunk ''error'' (Some ''boom'')]"
  by (simp add: chat_eval building_eval classify_eval emptyMcpSnapshot_def)

subsection \<open>Cancelled login sessions\<close>

lemma cancelSession_fields:
  "login_state (cancelSession session) = StateCancelled"
  "login_error (cancelSession session) = None"
  "login_exitCode (cancelSession session) = login_exitCode session"
  "login_output (cancelSession session) = login_output session"
  "login_url (cancelSession session) = login_url session"
  "login_id (cancelSession session) = login_id session"
  by (simp_all add: cancelSession_def Let_def split: option.splits)

lemma onProcessClose_cancelled:
  "login_state session = StateCancelled \<Longrightarrow>
     onProcessClose exitCode session = session\<lparr> login_exitCode := exitCode, login_process := None \<rparr>"
  by (simp add: onProcessClose_def Let_def)

lemma onProcessClose_running:
  "login_state session = StateRunning \<Longrightarrow>
     login_state (onProcessClose exitCode session) =
       (if exitCode = Some 0 then StateSuccess else StateError)"
  by (simp add: onProcessClose_def Let_def)

lemma onProcessError_state: "login_state (onProcessError msg session) = StateError"
  by (simp add: onProcessError_def)

lemma cancelLogin_then_close:
  "fst (cancelLogin sessionId (loginSessions(sessionId \<mapsto> session)))
   \<and> snd (cancelLogin sessionId (loginSessions(sessionId \<mapsto> session))) sessionId
       = Some (cancelSession session)
   \<and> login_state (cancelSession session) = StateCancelled
   \<and> onProcessClose exitCode (cancelSession session)
       = (cancelSession session)\<lparr> login_exitCode := exitCode, login_process := None \<rparr>
   \<and> login_state (onProcessClose exitCode (cancelSession session)) = StateCancelled
   \<and> login_exitCode (onProcessClose exitCode (cancelSession session)) = exitCode"
  by (simp add: cancelLogin_def cancelSession_fields onProcessClose_cancelled)

text \<open>
  C10.  The cancelled state is meant to be final for the child process: the close handler
  returns before it touches the state of a cancelled session, for every exit code.  The
  handler of the child's \<^verbatim>\<open>error\<close> event has no such guard.  Run on the session that
  \<open>cancelLogin\<close> cancelled, the close handler keeps the state cancelled, and the error
  handler overwrites it with error and stores a start-failure message.
\<close>

theorem cancelled_login_overwritten_by_error_event:
  "snd (cancelLogin ''s1'' [''s1'' \<mapsto> sampleLogin]) ''s1'' = Some (cancelSession sampleLogin)
   \<and> login_state (cancelSession sampleLogin) = StateCancelled
   \<and> login_state (onProcessClose (Some (- 13)) (cancelSession sampleLogin)) = StateCancelled
   \<and> login_state (onProcessError ''kill EPERM'' (cancelSession sampleLogin)) = StateError
   \<and> login_error (onProcessError ''kill EPERM'' (cancelSession sampleLogin))
       = Some ''[codex] Failed to start login flow: kill EPERM''"
  by (simp add: cancelLogin_def cancelSession_def onProcessClose_def onProcessError_def
        sampleLogin_def Let_def)

subsection \<open>One automatic retry after an auth error\<close>

lemma resolve_hasAny:
  "hasAny (resolveCodexCredentialsForAuthError integration c) \<longleftrightarrow>
     codexApiKey c \<noteq> [] \<or> integration = Some ''connected_chatgpt''"
  by (auto simp: resolveCodexCredentialsForAuthError_def getStoredCodexCredentials_def Let_def
           split: option.splits)

lemma sendMessages_fields:
  "forceNewSession (fst (sendMessages k prompt images c)) \<longleftrightarrow> k \<in> forceFreshSessionSubChats c"
  "send_subChatId (fst (sendMessages k prompt images c)) = k"
  "send_prompt (fst (sendMessages k prompt images c)) = prompt"
  "send_images (fst (sendMessages k prompt images c)) = images"
  "forceFreshSessionSubChats (snd (sendMessages k prompt images c)) = forceFreshSessionSubChats c - {k}"
  "codexApiKey (snd (sendMessages k prompt images c)) = codexApiKey c"
  "toasts (snd (sendMessages k prompt images c)) = toasts c"
  "codexLoginModalOpenAtom (snd (sendMessages k prompt images c)) = codexLoginModalOpenAtom c"
  "pendingAuthRetryMessageAtom (snd (sendMessages k prompt images c)) = pendingAuthRetryMessageAtom c"
  by (auto simp: sendMessages_def Let_def)

lemma onAuthError_fields:
  "forceFreshSessionSubChats (snd (onAuthError integration ctx c))
     = insert (send_subChatId ctx) (forceFreshSessionSubChats c)"
  "codexApiKey (snd (onAuthError integration ctx c)) = codexApiKey c"
  "map_option readyToRetry (pendingAuthRetryMessageAtom (snd (onAuthError integration ctx c)))
     = Some (credentialExists integration c \<and> \<not> forceNewSession ctx)"
  "codexLoginModalOpenAtom (snd (onAuthError integration ctx c))
     = (codexLoginModalOpenAtom c \<or> \<not> credentialExists integration c)"
  "toasts (snd (onAuthError integration ctx c))
     = toasts c @
       (if credentialExists integration c \<and> forceNewSession ctx
        then [(''Codex authentication failed'',
               if codexApiKey c \<noteq> []
               then ''Saved Codex API key was rejected. Update it in Settings.''
               else ''Saved Codex subscription auth failed. Reconnect subscription in Settings.'')]
        else [])"
  "cleanupCalls (snd (onAuthError integration ctx c)) = cleanupCalls c @ [send_subChatId ctx]"
  by (auto simp: onAuthError_def Let_def shouldAutoRetryOnce_def credentialExists_def
        resolveCodexCredentialsForAuthError_def getStoredCodexCredentials_def split: option.splits)

text \<open>
  C6.  A send for sub-chat \<open>k\<close> meets an \<open>auth-error\<close> chunk.  If a credential exists and
  the send was not a forced-fresh one, the retry message is staged with \<open>readyToRetry\<close>
  true and neither a toast nor the login modal is shown.  If the send was forced-fresh or
  no credential exists, the staged message has \<open>readyToRetry\<close> false and an error
  surfaces: the toast when a credential exists, the login modal otherwise.  In both cases
  \<open>k\<close> is marked, the next send for \<open>k\<close> is forced-fresh and clears the mark, the send
  after that is not forced, and an auth error on that next send stages no automatic retry.
\<close>

theorem auth_error_stages_one_retry:
  assumes send: "sendMessages k prompt images c = (ctx, c1)"
      and err: "onAuthError integration ctx c1 = (ctx', c2)"
      and resend: "sendMessages k prompt' images' c2 = (ctx2, c3)"
  shows "(credentialExists integration c \<and> \<not> forceNewSession ctx \<longrightarrow>
            pendingAuthRetryMessageAtom c2 =
              Some \<lparr> retry_subChatId = k, retry_provider = ''codex'', retry_prompt = prompt,
                     retry_images = (if images \<noteq> [] then Some images else None),
                     readyToRetry = True \<rparr> \<and>
            toasts c2 = toasts c \<and>
            codexLoginModalOpenAtom c2 = codexLoginModalOpenAtom c)
       \<and> (forceNewSession ctx \<or> \<not> credentialExists integration c \<longrightarrow>
            map_option readyToRetry (pendingAuthRetryMessageAtom c2) = Some False \<and>
            (if credentialExists integration c
             then length (toasts c2) = Suc (length (toasts c)) \<and>
                  fst (last (toasts c2)) = ''Codex authentication failed''
             else codexLoginModalOpenAtom c2))
       \<and> k \<in> forceFreshSessionSubChats c2
       \<and> forceNewSession ctx2
       \<and> k \<notin> forceFreshSessionSubChats c3
       \<and> \<not> forceNewSession (fst (sendMessages k prompt'' images'' c3))
       \<and> map_option readyToRetry
            (pendingAuthRetryMessageAtom (snd (onAuthError integration' ctx2 c3))) = Some False
       \<and> (forceNewSession ctx \<longleftrightarrow> k \<in> forceFreshSessionSubChats c)"
proof -
  from send have ctx: "ctx = fst (sendMessages k prompt images c)"
    and c1: "c1 = snd (sendMessages k prompt images c)" by simp_all
  from err have c2: "c2 = snd (onAuthError integration ctx c1)" by simp
  from resend have ctx2: "ctx2 = fst (sendMessages k prompt' images' c2)"
    and c3: "c3 = snd (sendMessages k prompt' images' c2)" by simp_all
  have ce: "credentialExists integration c1 = credentialExists integration c"
    by (simp add: credentialExists_def resolve_hasAny c1 sendMessages_fields)
  have ce': "credentialExists integration (snd (sendMessages k prompt images c))
               = credentialExists integration c"
    using ce by (simp add: c1)
  have k: "send_subChatId ctx = k" by (simp add: ctx sendMessages_fields)
  have flag: "k \<in> forceFreshSessionSubChats c2"
    by (simp add: c2 onAuthError_fields k)
  have f2: "forceNewSession ctx2"
    by (simp add: ctx2 sendMessages_fields flag)
  have nf3: "k \<notin> forceFreshSessionSubChats c3"
    by (simp add: c3 sendMessages_fields)
  have 1: "credentialExists integration c \<and> \<not> forceNewSession ctx \<longrightarrow>
            pendingAuthRetryMessageAtom c2 =
              Some \<lparr> retry_subChatId = k, retry_provider = ''codex'', retry_prompt = prompt,
                     retry_images = (if images \<noteq> [] then Some images else None),
                     readyToRetry = True \<rparr> \<and>
            toasts c2 = toasts c \<and>
            codexLoginModalOpenAtom c2 = codexLoginModalOpenAtom c"
  proof
    assume a: "credentialExists integration c \<and> \<not> forceNewSession ctx"
    then have "shouldAutoRetryOnce (resolveCodexCredentialsForAuthError integration
                 (c1\<lparr> forceFreshSessionSubChats := insert (send_subChatId ctx) (forceFreshSessionSubChats c1) \<rparr>)) ctx"
      using ce by (simp add: shouldAutoRetryOnce_def credentialExists_def resolve_hasAny)
    then have "pendingAuthRetryMessageAtom c2 =
              Some \<lparr> retry_subChatId = k, retry_provider = ''codex'', retry_prompt = prompt,
                     retry_images = (if images \<noteq> [] then Some images else None),
                     readyToRetry = True \<rparr>"
      using a by (simp add: c2 onAuthError_def Let_def shouldAutoRetryOnce_def ctx sendMessages_fields)
    moreover have "toasts c2 = toasts c" "codexLoginModalOpenAtom c2 = codexLoginModalOpenAtom c"
      using a by (simp_all add: c2 onAuthError_fields ce ce' c1 sendMessages_fields)
    ultimately show "pendingAuthRetryMessageAtom c2 =
              Some \<lparr> retry_subChatId = k, retry_provider = ''codex'', retry_prompt = prompt,
                     retry_images = (if images \<noteq> [] then Some images else None),
                     readyToRetry = True \<rparr> \<and>
            toasts c2 = toasts c \<and>
            codexLoginModalOpenAtom c2 = codexLoginModalOpenAtom c" by simp
  qed
  have 2: "forceNewSession ctx \<or> \<not> credentialExists integration c \<longrightarrow>
            map_option readyToRetry (pendingAuthRetryMessageAtom c2) = Some False \<and>
            (if credentialExists integration c
             then length (toasts c2) = Suc (length (toasts c)) \<and>
                  fst (last (toasts c2)) = ''Codex authentication failed''
             else codexLoginModalOpenAtom c2)"
    by (auto simp: c2 onAuthError_fields ce ce' c1 sendMessages_fields)
  have 3: "\<not> forceNewSession (fst (sendMessages k prompt'' images'' c3))"
    by (simp add: sendMessages_fields nf3)
  have 4: "map_option readyToRetry
            (pendingAuthRetryMessageAtom (snd (onAuthError integration' ctx2 c3))) = Some False"
    by (simp add: onAuthError_fields f2)
  have 5: "forceNewSession ctx \<longleftrightarrow> k \<in> forceFreshSessionSubChats c"
    by (simp add: ctx sendMessages_fields)
  from 1 2 flag f2 nf3 3 4 5 show ?thesis by (intro conjI)
qed

theorem auth_error_stages_one_retry_witness:
  "map_option readyToRetry (pendingAuthRetryMessageAtom
      (snd (onAuthError None (fst (sendMessages ''c1'' ''hello'' [] sampleClient))
                             (snd (sendMessages ''c1'' ''hello'' [] sampleClient))))) = Some True
   \<and> toasts (snd (onAuthError None (fst (sendMessages ''c1'' ''hello'' [] sampleClient))
                             (snd (sendMessages ''c1'' ''hello'' [] sampleClient)))) = []
   \<and> forceNewSession (fst (sendMessages ''c1'' ''hello'' []
        (snd (onAuthError None (fst (sendMessages ''c1'' ''hello'' [] sampleClient))
                             (snd (sendMessages ''c1'' ''hello'' [] sampleClient))))))
   \<and> map_option readyToRetry (pendingAuthRetryMessageAtom
        (snd (onAuthError None
          (fst (sendMessages ''c1'' ''hello'' []
            (snd (onAuthError None (fst (sendMessages ''c1'' ''hello'' [] sampleClient))
                                   (snd (sendMessages ''c1'' ''hello'' [] sampleClient))))))
          (snd (sendMessages ''c1'' ''hello'' []
            (snd (onAuthError None (fst (sendMessages ''c1'' ''hello'' [] sampleClient))
                                   (snd (sendMessages ''c1'' ''hello'' [] sampleClient))))))))) = Some False
   \<and> codexLoginModalOpenAtom
        (snd (onAuthError None
          (fst (sendMessages ''c1'' ''hello'' [] (sampleClient\<lparr> codexApiKey := [] \<rparr>)))
          (snd (sendMessages ''c1'' ''hello'' [] (sampleClient\<lparr> codexApiKey := [] \<rparr>)))))"
proof -
  let ?c = sampleClient
  let ?s1 = "sendMessages ''c1'' ''hello'' [] ?c"
  let ?e1 = "onAuthError None (fst ?s1) (snd ?s1)"
  let ?s2 = "sendMessages ''c1'' ''hello'' [] (snd ?e1)"
  let ?n = "sampleClient\<lparr> codexApiKey := [] \<rparr>"
  let ?sn = "sendMessages ''c1'' ''hello'' [] ?n"
  let ?en = "onAuthError None (fst ?sn) (snd ?sn)"
  have cred: "credentialExists None ?c" "\<not> credentialExists None ?n"
    by (simp_all add: client_eval)
  have nf: "\<not> forceNewSession (fst ?s1)" by (simp add: client_eval)
  note t = auth_error_stages_one_retry
             [where k = "''c1''" and integration = None and integration' = None,
              OF surjective_pairing surjective_pairing surjective_pairing]
  note a = t [where c = ?c and prompt = "''hello''" and images = "[]"
                and prompt' = "''hello''" and images' = "[]"]
  have 1: "map_option readyToRetry (pendingAuthRetryMessageAtom (snd ?e1)) = Some True"
    and 2: "toasts (snd ?e1) = []"
    using a [THEN conjunct1, THEN mp, OF conjI [OF cred(1) nf]]
    by (simp_all add: sampleClient_def)
  have 3: "forceNewSession (fst ?s2)"
    by (rule a [THEN conjunct2, THEN conjunct2, THEN conjunct2, THEN conjunct1])
  have 4: "map_option readyToRetry (pendingAuthRetryMessageAtom
             (snd (onAuthError None (fst ?s2) (snd ?s2)))) = Some False"
    by (rule a [THEN conjunct2, THEN conjunct2, THEN conjunct2, THEN conjunct2, THEN conjunct2,
                THEN conjunct2, THEN conjunct1])
  note b = t [where c = ?n and prompt = "''hello''" and images = "[]"
                and prompt' = "''hello''" and images' = "[]"]
  have 5: "codexLoginModalOpenAtom (snd ?en)"
    using b [THEN conjunct2, THEN conjunct1, THEN mp, OF disjI2 [OF cred(2)]] cred(2)
    by simp
  from 1 2 3 4 5 show ?thesis by (intro conjI)
qed

end
